theory Spec2Isabelle
  imports Main "HOL-Library.Word" "HOL-Library.AList"
begin

unbundle bit_operations_syntax

section \<open>The observation store of the network problem detector\<close>

text \<open>
  A shallow embedding of \<^verbatim>\<open>pkg/agent/db/writer2.go\<close>: the record codec
  (\<^verbatim>\<open>writeRecord\<close>, \<^verbatim>\<open>readRecord\<close>), the hourly file manager
  (\<^verbatim>\<open>loadStringIDMap\<close>, \<^verbatim>\<open>getFile\<close>), the retention sweep
  (\<^verbatim>\<open>cleanOldFiles\<close>), the query engine (\<^verbatim>\<open>ListObservations\<close>,
  \<^verbatim>\<open>GetRecordFiles\<close>, \<^verbatim>\<open>IterateRecordFile\<close>) and \<^verbatim>\<open>Stop\<close>.

  Conventions of the model:
  \<^item> a \<^verbatim>\<open>time.Time\<close> is the instant it denotes, an integer number of nanoseconds since
    Go's zero time (January 1, year 1, 00:00:00 UTC); the zero \<^verbatim>\<open>time.Time\<close> is 0.
    Locations and monotonic clock readings are left out: every comparison of the source
    (\<^verbatim>\<open>After\<close>, \<^verbatim>\<open>Before\<close>) compares instants;
  \<^item> a \<^verbatim>\<open>time.Duration\<close> is a 64-bit signed count of nanoseconds, with the
    wrap-around of Go's multiplication written out where the source multiplies;
  \<^item> an error return is a value: \<open>Inl e\<close> in a result of type \<open>error + 'a\<close>, or
    \<open>Some e\<close> where the source returns only an \<^verbatim>\<open>error\<close>;
  \<^item> the file system is the store directory of the writer: a list of named entries, with
    the faults the operating system may answer with given by the state of the world.
\<close>

subsection \<open>Bytes, times and errors\<close>

type_synonym byte = "8 word"

type_synonym time = int

definition Minute :: int where
  "Minute = 60 * 1000000000"

definition Hour :: int where
  "Hour = 60 * Minute"

text \<open>The system calls that the model lets fail, each on the entry it is applied to.\<close>

datatype sysop =
  MkdirAll | OpenRead | OpenAppend | Remove | Stat | Close | ReadDir | FileInfo | ReadIO | WriteIO

datatype error =
    EOF
  | ErrUnexpectedEOF
  | SysErr sysop string
  | ErrNotExist string
  | ErrNoSpace
  | ErrIsDir string
  | MissingMarker
  | IncompleteBlock nat nat
  | ReadingStringIDMapFailed error
  | ReadingStringIDMapFromFileFailed string error
  | InvalidFileFormat
  | ErrorOnReadingStringIDMap error
  | ErrorOnAppending error
  | ErrorOnUnmarshalling error
  | ErrorOnConverting error
  | IsNotAFile string
  | Foreign string

subsection \<open>Streams\<close>

text \<open>
  An \<^verbatim>\<open>io.Writer\<close> as the store uses it: a file open for appending. \<open>written\<close> is
  what the file holds, \<open>room\<close> the number of bytes the device still takes (\<open>None\<close>:
  no limit). A write that does not fit writes what fits and returns an error.
\<close>

record ostream =
  written :: "byte list"
  room :: "nat option"

definition os_Write :: "ostream \<Rightarrow> byte list \<Rightarrow> error option \<times> ostream" where
  "os_Write w bs =
     (case room w of
        None \<Rightarrow> (None, w\<lparr>written := written w @ bs\<rparr>)
      | Some k \<Rightarrow>
          if length bs \<le> k
          then (None, w\<lparr>written := written w @ bs, room := Some (k - length bs)\<rparr>)
          else (Some ErrNoSpace, w\<lparr>written := written w @ take k bs, room := Some 0\<rparr>))"

text \<open>
  An \<^verbatim>\<open>io.Reader\<close> as the store uses it: a regular file open for reading.
  \<open>pending\<close> is what is left to read; \<open>broken\<close> says that the device answers with an
  I/O error, instead of end of file, once \<open>pending\<close> is used up. \<^verbatim>\<open>Read\<close> into a
  buffer of \<open>n\<close> bytes returns the bytes read and the error: nothing and no error for an
  empty buffer, \<^verbatim>\<open>io.EOF\<close> at the end of the file, and otherwise as many bytes as
  are there, up to \<open>n\<close>.
\<close>

record istream =
  pending :: "byte list"
  broken :: bool

definition is_Read :: "istream \<Rightarrow> nat \<Rightarrow> (byte list \<times> error option) \<times> istream" where
  "is_Read r n =
     (if n = 0 then (([], None), r)
      else if pending r = [] then (([], Some (if broken r then SysErr ReadIO [] else EOF)), r)
      else ((take n (pending r), None), r\<lparr>pending := drop n (pending r)\<rparr>))"

text \<open>
  \<^verbatim>\<open>io.ReadFull\<close>, which \<^verbatim>\<open>binary.Read\<close> calls: it reads until the buffer of
  \<open>n\<close> bytes is full; when the stream ends first, the error is \<^verbatim>\<open>io.EOF\<close> if
  nothing was read and \<^verbatim>\<open>io.ErrUnexpectedEOF\<close> otherwise; an I/O error is returned
  as it is.
\<close>

definition io_ReadFull :: "istream \<Rightarrow> nat \<Rightarrow> (byte list \<times> error option) \<times> istream" where
  "io_ReadFull r n =
     (if n \<le> length (pending r)
      then ((take n (pending r), None), r\<lparr>pending := drop n (pending r)\<rparr>)
      else ((pending r,
             Some (if broken r then SysErr ReadIO []
                   else if pending r = [] then EOF else ErrUnexpectedEOF)),
            r\<lparr>pending := []\<rparr>))"

subsection \<open>The record codec\<close>

definition markerStringID :: byte where
  "markerStringID = 1"

definition markerObservation :: byte where
  "markerObservation = 2"

definition markerOpen :: byte where
  "markerOpen = 127"

text \<open>A \<^verbatim>\<open>uint16\<close> in little-endian byte order, as \<^verbatim>\<open>encoding/binary\<close> writes and reads it.\<close>

definition put_uint16 :: "16 word \<Rightarrow> byte list" where
  "put_uint16 x = [ucast x, ucast (drop_bit 8 x)]"

definition get_uint16 :: "byte list \<Rightarrow> 16 word" where
  "get_uint16 bs = (ucast (bs ! 0) :: 16 word) OR push_bit 8 (ucast (bs ! 1) :: 16 word)"

text \<open>
  \<^verbatim>\<open>writeRecord\<close>: three writes, each error returned as it comes. The length field is
  \<^verbatim>\<open>uint16(len(value))\<close>, the conversion of Go that keeps the low 16 bits.
\<close>

definition writeRecord :: "ostream \<Rightarrow> byte \<Rightarrow> byte list \<Rightarrow> error option \<times> ostream" where
  "writeRecord w marker val =
     (case os_Write w [marker] of
        (Some err, w1) \<Rightarrow> (Some err, w1)
      | (None, w1) \<Rightarrow>
          (case os_Write w1 (put_uint16 (of_nat (length val))) of
             (Some err, w2) \<Rightarrow> (Some err, w2)
           | (None, w2) \<Rightarrow>
               (case os_Write w2 val of
                  (Some err, w3) \<Rightarrow> (Some err, w3)
                | (None, w3) \<Rightarrow> (None, w3))))"

text \<open>
  \<^verbatim>\<open>readRecord\<close> returns \<^verbatim>\<open>(marker, value, err)\<close>. The model's result is
  \<open>Inl err\<close> for an error, \<open>Inr None\<close> for \<^verbatim>\<open>(0, nil, nil)\<close>, the clean end of
  the stream, and \<open>Inr (Some (marker, value))\<close> for a record (whose value is not
  \<^verbatim>\<open>nil\<close>, also when its length is 0); the stream is returned as the call left it.
\<close>

definition readRecord :: "istream \<Rightarrow> (error + (byte \<times> byte list) option) \<times> istream" where
  "readRecord r =
     (case is_Read r 1 of
        ((marker, Some err), r1) \<Rightarrow> if err = EOF then (Inr None, r1) else (Inl err, r1)
      | ((marker, None), r1) \<Rightarrow>
          if length marker \<noteq> 1 then (Inl MissingMarker, r1)
          else
            (case io_ReadFull r1 2 of
               ((_, Some err), r2) \<Rightarrow> (Inl err, r2)
             | ((lbytes, None), r2) \<Rightarrow>
                 (let len = unat (get_uint16 lbytes) in
                  case is_Read r2 len of
                    ((_, Some err), r3) \<Rightarrow> (Inl err, r3)
                  | ((val, None), r3) \<Rightarrow>
                      if length val \<noteq> len then (Inl (IncompleteBlock (length val) len), r3)
                      else (Inr (Some (marker ! 0, val)), r3))))"

subsection \<open>What the store takes from the rest of the program\<close>

text \<open>
  The string dictionary (\<^verbatim>\<open>StringIDMap\<close>), the observation codec and the protocol
  buffer library are not part of \<^verbatim>\<open>writer2.go\<close>: the store calls them and only looks
  at whether they fail. They are parameters of the model, and so is the formatting of
  times. An \<^verbatim>\<open>IntString\<close> is its pair of key and value; \<open>'m\<close> is the type of
  dictionaries and \<open>'i\<close> the type of encoded observations.
\<close>

type_synonym IntString = "int \<times> string"

record Observation =
  Timestamp :: time
  Ok :: bool
  JobID :: string
  SrcHost :: string
  DestHost :: string

record ('m, 'i) deps =
  proto_Unmarshal :: "byte list \<Rightarrow> error + IntString"
    \<comment> \<open>\<^verbatim>\<open>proto.Unmarshal\<close> into an \<^verbatim>\<open>nwpd.IntString\<close>, then \<^verbatim>\<open>NewVarint2String\<close>\<close>
  NewStringIDMap :: 'm
  NewStringIDMapFromData :: "IntString list \<Rightarrow> 'm"
  Append :: "'m \<Rightarrow> IntString \<Rightarrow> error + 'm"
  IntObsFromBytes :: "byte list \<Rightarrow> error + 'i"
  IntObsToObservation :: "'i \<Rightarrow> 'm \<Rightarrow> error + Observation"
  FormatHour :: "time \<Rightarrow> string"
    \<comment> \<open>\<^verbatim>\<open>Format("2006-01-02-15")\<close> of a UTC time\<close>
  FormatClock :: "time \<Rightarrow> byte list"
    \<comment> \<open>the bytes of \<^verbatim>\<open>Format("15:04:05")\<close> of a UTC time\<close>

subsection \<open>The world: clock, store directory, faults, log\<close>

datatype node =
    Dir (mtime: time)
  | File (content: "byte list") (mtime: time)

fun IsDir :: "node \<Rightarrow> bool" where
  "IsDir (Dir _) = True"
| "IsDir (File _ _) = False"

datatype level = Warn | Info

datatype logmsg =
    ClosingFileFailed string error
  | LoadingStringIDMapFailed string error
  | DeletingCorruptFile string
  | CannotDeleteFile string error
  | DeletedFile string
  | CannotReadDirectory string error

text \<open>
  Every path the store touches is \<^verbatim>\<open>directory/name\<close> for an entry \<open>name\<close> of the
  store directory; the model addresses an entry by its name. \<open>faulty wld op name\<close> says
  that the system call \<open>op\<close> on \<open>name\<close> fails for a reason of the operating system's
  (permissions, I/O). \<open>space\<close> is the room left on the device, \<open>handles\<close> the files
  open for appending. \<open>running\<close> says that a goroutine of the program is in the
  \<^verbatim>\<open>Run\<close> loop of the writer, where it receives from the channel \<^verbatim>\<open>done\<close>;
  \<^verbatim>\<open>NewObsWriter\<close> starts none.
\<close>

record world =
  clock :: time
  entries :: "(string \<times> node) list"
  faulty :: "sysop \<Rightarrow> string \<Rightarrow> bool"
  space :: "nat option"
  handles :: "string list"
  journal :: "(level \<times> logmsg) list"
  running :: bool

definition logf :: "level \<Rightarrow> logmsg \<Rightarrow> world \<Rightarrow> world" where
  "logf l m wld = wld\<lparr>journal := journal wld @ [(l, m)]\<rparr>"

definition os_Remove :: "world \<Rightarrow> string \<Rightarrow> error option \<times> world" where
  "os_Remove wld name =
     (if faulty wld Remove name then (Some (SysErr Remove name), wld)
      else case map_of (entries wld) name of
             None \<Rightarrow> (Some (ErrNotExist name), wld)
           | Some _ \<Rightarrow> (None, wld\<lparr>entries := AList.delete name (entries wld)\<rparr>))"

text \<open>\<^verbatim>\<open>os.OpenFile\<close> with \<^verbatim>\<open>O_CREATE|O_APPEND|O_WRONLY\<close>.\<close>

definition os_OpenAppend :: "world \<Rightarrow> string \<Rightarrow> error option \<times> world" where
  "os_OpenAppend wld name =
     (if faulty wld OpenAppend name then (Some (SysErr OpenAppend name), wld)
      else case map_of (entries wld) name of
             None \<Rightarrow>
               (None, wld\<lparr>entries := entries wld @ [(name, File [] (clock wld))],
                           handles := name # handles wld\<rparr>)
           | Some (Dir _) \<Rightarrow> (Some (ErrIsDir name), wld)
           | Some (File _ _) \<Rightarrow> (None, wld\<lparr>handles := name # handles wld\<rparr>))"

definition os_Close :: "world \<Rightarrow> string \<Rightarrow> error option \<times> world" where
  "os_Close wld name =
     (if faulty wld Close name then (Some (SysErr Close name), wld\<lparr>handles := remove1 name (handles wld)\<rparr>)
      else (None, wld\<lparr>handles := remove1 name (handles wld)\<rparr>))"

text \<open>
  \<^verbatim>\<open>os.OpenFile\<close> with \<^verbatim>\<open>O_RDONLY\<close> on an entry that is there. A directory
  opens, and every read of it fails.
\<close>

definition open_read :: "world \<Rightarrow> string \<Rightarrow> node \<Rightarrow> istream" where
  "open_read wld name nd =
     (case nd of
        Dir _ \<Rightarrow> \<lparr>pending = [], broken = True\<rparr>
      | File c _ \<Rightarrow> \<lparr>pending = c, broken = faulty wld ReadIO name\<rparr>)"

text \<open>\<^verbatim>\<open>writeRecord\<close> on the open file \<open>name\<close>: the record is appended to what the entry holds.\<close>

definition file_writeRecord :: "world \<Rightarrow> string \<Rightarrow> byte \<Rightarrow> byte list \<Rightarrow> error option \<times> world" where
  "file_writeRecord wld name marker val =
     (case map_of (entries wld) name of
        Some (File c _) \<Rightarrow>
          (case writeRecord \<lparr>written = c, room = space wld\<rparr> marker val of
             (err, w') \<Rightarrow>
               (err, wld\<lparr>entries := AList.update name (File (written w') (clock wld)) (entries wld),
                          space := room w'\<rparr>))
      | _ \<Rightarrow> (Some (SysErr WriteIO name), wld))"

subsection \<open>The writer and its current file\<close>

text \<open>
  \<^verbatim>\<open>atomic.Value\<close>: nothing stored yet, or a stored \<^verbatim>\<open>*writeFile\<close>, which is a
  pointer and may be \<^verbatim>\<open>nil\<close>. Two fields of \<^verbatim>\<open>writeFile\<close> have names that
  Isabelle reserves: \<^verbatim>\<open>end\<close> is \<open>endTime\<close> here, and \<^verbatim>\<open>file\<close>, the open
  \<^verbatim>\<open>os.File\<close>, is \<open>osFile\<close>: the name of the entry it was opened on. \<open>filename\<close> is
  the path as the source formats it. \<open>retentionHours\<close> is a Go \<^verbatim>\<open>int\<close>, of 64 bits on
  the platforms the agent is built for (amd64 and arm64).
\<close>

datatype 'a slot = Empty | Stored 'a

record 'm writeFile =
  filename :: string
  endTime :: time
  osFile :: string
  idMap :: 'm

record 'm obsWriter =
  directory :: string
  prefix :: string
  retentionHours :: int
  currentFile :: "'m writeFile option slot"
  ticker :: bool

definition NewObsWriter ::
  "world \<Rightarrow> string \<Rightarrow> string \<Rightarrow> int \<Rightarrow> error + 'm obsWriter" where
  "NewObsWriter wld dir pre hours =
     (if faulty wld MkdirAll dir then Inl (SysErr MkdirAll dir)
      else Inr \<lparr>directory = dir, prefix = pre, retentionHours = hours,
                currentFile = Empty, ticker = True\<rparr>)"

text \<open>
  \<^verbatim>\<open>startOfHourUTC\<close> sets minutes, seconds and nanoseconds of the UTC time to zero. Go's
  zero time is the start of an hour and UTC has hours of 3600 seconds throughout, so this
  is rounding down to a multiple of \<open>Hour\<close>.
\<close>

definition startOfHourUTC :: "time \<Rightarrow> time" where
  "startOfHourUTC t = t - t mod Hour"

definition recordName :: "('m, 'i) deps \<Rightarrow> string \<Rightarrow> time \<Rightarrow> string" where
  "recordName d pre hour = pre @ ''-'' @ FormatHour d hour @ ''.records''"

definition recordPath :: "string \<Rightarrow> string \<Rightarrow> string" where
  "recordPath dir name = dir @ ''/'' @ name"

subsection \<open>The hourly file manager\<close>

text \<open>The loop of \<^verbatim>\<open>loadStringIDMap\<close> over the records of the open file.\<close>

function loadRecords ::
  "('m, 'i) deps \<Rightarrow> string \<Rightarrow> istream \<Rightarrow> IntString list \<Rightarrow> error + IntString list" where
  "loadRecords d fname r objects =
     (case readRecord r of
        (Inl err, _) \<Rightarrow> Inl (ReadingStringIDMapFailed err)
      | (Inr None, _) \<Rightarrow> Inr objects
      | (Inr (Some (marker, val)), r') \<Rightarrow>
          if marker = markerStringID then
            (case proto_Unmarshal d val of
               Inl err \<Rightarrow> Inl (ReadingStringIDMapFromFileFailed fname err)
             | Inr obj \<Rightarrow> loadRecords d fname r' (objects @ [obj]))
          else if marker = markerObservation then loadRecords d fname r' objects
          else if marker = markerOpen then loadRecords d fname r' objects
          else Inl InvalidFileFormat)"
  by pat_completeness auto
termination
  by (relation "measure (\<lambda>(d, fname, r, objects). length (pending r))")
     (auto simp: readRecord_def is_Read_def io_ReadFull_def Let_def
           split: if_splits prod.splits option.splits)

declare loadRecords.simps [simp del]

definition loadStringIDMap :: "('m, 'i) deps \<Rightarrow> world \<Rightarrow> string \<Rightarrow> string \<Rightarrow> error + 'm" where
  "loadStringIDMap d wld fname name =
     (if faulty wld OpenRead name then Inl (SysErr OpenRead name)
      else case map_of (entries wld) name of
             None \<Rightarrow> Inr (NewStringIDMap d)
           | Some nd \<Rightarrow>
               (case loadRecords d fname (open_read wld name nd) [] of
                  Inl err \<Rightarrow> Inl err
                | Inr objects \<Rightarrow> Inr (NewStringIDMapFromData d objects)))"

text \<open>
  The body of the \<^verbatim>\<open>if\<close> of \<^verbatim>\<open>getFile\<close>: the rotation. \<open>old\<close> is the file
  that was current; \<open>closeOld\<close> closes it and logs a failure to. The retention sweep
  that the source starts here runs in a goroutine
  of its own; it is \<open>cleanOldFiles\<close> below and no part of the rotation's result.
\<close>

definition closeOld :: "world \<Rightarrow> 'm writeFile option \<Rightarrow> world" where
  "closeOld wld old =
     (case old of
        None \<Rightarrow> wld
      | Some f \<Rightarrow>
          (case os_Close wld (osFile f) of
             (Some err, wld') \<Rightarrow> logf Warn (ClosingFileFailed (filename f) err) wld'
           | (None, wld') \<Rightarrow> wld'))"

definition rotate ::
  "('m, 'i) deps \<Rightarrow> 'm obsWriter \<Rightarrow> world \<Rightarrow> 'm writeFile option \<Rightarrow>
   (error + 'm writeFile) \<times> 'm obsWriter \<times> world" where
  "rotate d w wld old =
     (let now = clock wld;
          wld1 = closeOld wld old;
          currentUTC = startOfHourUTC now;
          next = now + 61 * Minute;
          nextUTC = startOfHourUTC next;
          name = recordName d (prefix w) currentUTC;
          fname = recordPath (directory w) name;
          (idm, wld2) =
            (case loadStringIDMap d wld1 fname name of
               Inr m \<Rightarrow> (m, wld1)
             | Inl err \<Rightarrow>
                 (let wa = logf Warn (LoadingStringIDMapFailed fname err) wld1;
                      wb = logf Info (DeletingCorruptFile fname) wa;
                      wc = (case os_Remove wb name of
                              (Some err', wld') \<Rightarrow> logf Warn (CannotDeleteFile fname err') wld'
                            | (None, wld') \<Rightarrow> wld')
                  in (NewStringIDMap d, wc)))
      in case os_OpenAppend wld2 name of
           (Some err, wld3) \<Rightarrow> (Inl err, w, wld3)
         | (None, wld3) \<Rightarrow>
             (case file_writeRecord wld3 name markerOpen (FormatClock d now) of
                (Some err, wld4) \<Rightarrow> (Inl err, w, wld4)
              | (None, wld4) \<Rightarrow>
                  (let f = \<lparr>filename = fname, endTime = nextUTC, osFile = name, idMap = idm\<rparr>
                   in (Inr f, w\<lparr>currentFile := Stored (Some f)\<rparr>, wld4))))"

text \<open>
  \<^verbatim>\<open>if f, ok := w.currentFile.Load().(*writeFile); ok { file = f }\<close>: the file that is
  current, \<^verbatim>\<open>nil\<close> when nothing is stored.
\<close>

definition loadCurrent :: "'m obsWriter \<Rightarrow> 'm writeFile option" where
  "loadCurrent w = (case currentFile w of Empty \<Rightarrow> None | Stored f \<Rightarrow> f)"

definition getFile ::
  "('m, 'i) deps \<Rightarrow> 'm obsWriter \<Rightarrow> world \<Rightarrow> (error + 'm writeFile) \<times> 'm obsWriter \<times> world" where
  "getFile d w wld =
     (let now = clock wld
      in case loadCurrent w of
           None \<Rightarrow> rotate d w wld None
         | Some f \<Rightarrow> if endTime f < now then rotate d w wld (Some f) else (Inr f, w, wld))"

subsection \<open>Stop\<close>

text \<open>
  \<^verbatim>\<open>Stop\<close> stops the ticker and sends on \<^verbatim>\<open>done\<close>. The channel has no buffer, so
  the send blocks until the \<^verbatim>\<open>Run\<close> loop receives the value: with no \<^verbatim>\<open>Run\<close> loop
  running, \<^verbatim>\<open>Stop\<close> blocks there for good and reaches nothing of what follows; with
  one, the loop takes the value and returns. Then comes the type assertion
  \<^verbatim>\<open>w.currentFile.Load().(*writeFile)\<close>, which has no \<^verbatim>\<open>ok\<close> result: on an empty
  \<^verbatim>\<open>atomic.Value\<close> it panics. The outcome of \<^verbatim>\<open>Stop\<close> is that it blocks, that it
  panics, or that it returns, with the writer and the world as it leaves them.
\<close>

datatype 'a outcome = Blocked 'a | Panic | Returned 'a

definition Stop :: "'m obsWriter \<Rightarrow> world \<Rightarrow> ('m obsWriter \<times> world) outcome" where
  "Stop w wld =
     (let w1 = (if ticker w then w\<lparr>ticker := False\<rparr> else w)
      in if \<not> running wld then Blocked (w1, wld)
         else
           (let wld1 = wld\<lparr>running := False\<rparr>
            in case currentFile w1 of
                 Empty \<Rightarrow> Panic
               | Stored None \<Rightarrow> Returned (w1, wld1)
               | Stored (Some f) \<Rightarrow> Returned (w1, snd (os_Close wld1 (osFile f)))))"

subsection \<open>The retention sweep\<close>

text \<open>
  \<^verbatim>\<open>-time.Duration(hours) * time.Hour\<close> is a product of 64-bit signed integers, which
  wraps around in Go. \<open>wrap64\<close> is the value of a 64-bit signed integer with the bits of \<open>x\<close>.
\<close>

definition wrap64 :: "int \<Rightarrow> int" where
  "wrap64 x = (x + 2 ^ 63) mod 2 ^ 64 - 2 ^ 63"

definition HasPrefix :: "string \<Rightarrow> string \<Rightarrow> bool" where
  "HasPrefix s pre = (take (length pre) s = pre)"

text \<open>
  \<^verbatim>\<open>isBefore\<close>: \<^verbatim>\<open>entry.Info()\<close> asks the file system when it is called; an entry
  that is gone by then, or whose \<^verbatim>\<open>Info\<close> fails, is not before any limit.
\<close>

definition isBefore :: "world \<Rightarrow> string \<Rightarrow> time \<Rightarrow> bool" where
  "isBefore wld name limitUTC =
     (if faulty wld FileInfo name then False
      else case map_of (entries wld) name of
             None \<Rightarrow> False
           | Some nd \<Rightarrow> mtime nd < limitUTC)"

definition retentionLimit :: "'m obsWriter \<Rightarrow> world \<Rightarrow> time" where
  "retentionLimit w wld =
     (let hours = (if retentionHours w \<le> 0 then 1 else retentionHours w);
          limit = clock wld + wrap64 (- hours * Hour)
      in startOfHourUTC limit)"

text \<open>The loop of \<^verbatim>\<open>cleanOldFiles\<close> over the entries that \<^verbatim>\<open>os.ReadDir\<close> returned.\<close>

fun sweep :: "'m obsWriter \<Rightarrow> time \<Rightarrow> (string \<times> node) list \<Rightarrow> world \<Rightarrow> world" where
  "sweep w limitUTC [] wld = wld"
| "sweep w limitUTC ((name, nd) # files) wld =
     (if \<not> IsDir nd \<and> HasPrefix name (prefix w) \<and> isBefore wld name limitUTC
      then (let fname = recordPath (directory w) name
            in case os_Remove wld name of
                 (Some err, wld') \<Rightarrow> sweep w limitUTC files (logf Warn (CannotDeleteFile fname err) wld')
               | (None, wld') \<Rightarrow> sweep w limitUTC files (logf Info (DeletedFile fname) wld'))
      else sweep w limitUTC files wld)"

definition cleanOldFiles :: "'m obsWriter \<Rightarrow> world \<Rightarrow> world" where
  "cleanOldFiles w wld =
     (let limitUTC = retentionLimit w wld
      in if faulty wld ReadDir (directory w)
         then logf Warn (CannotReadDirectory (directory w) (SysErr ReadDir (directory w))) wld
         else sweep w limitUTC (entries wld) wld)"

subsection \<open>The query engine\<close>

record ListObservationsOptions =
  Start :: time
  End :: time
  Limit :: int
  FilterJobIDs :: "string list option"
  FilterSrcHosts :: "string list option"
  FilterDestHosts :: "string list option"
  FailuresOnly :: bool

text \<open>
  A \<^verbatim>\<open>[]string\<close> of the options is \<open>None\<close> when the slice is \<^verbatim>\<open>nil\<close> and
  \<open>Some ks\<close> otherwise; \<^verbatim>\<open>createFilter\<close> tells the two apart.
\<close>

definition all :: "string \<Rightarrow> bool" where
  "all _ = True"

text \<open>
  Modelled from the spec: \<^verbatim>\<open>common.StringSet\<close> with \<^verbatim>\<open>AddAll\<close> and
  \<^verbatim>\<open>Contains\<close> is not in \<^verbatim>\<open>writer2.go\<close>; the spec calls the filters "set
  membership", so \<^verbatim>\<open>m.Contains\<close> of the set built from \<open>ks\<close> is \<open>\<lambda>key. key \<in> set ks\<close>.
\<close>

definition createFilter :: "string list option \<Rightarrow> string \<Rightarrow> bool" where
  "createFilter keys = (case keys of None \<Rightarrow> all | Some ks \<Rightarrow> (\<lambda>key. key \<in> set ks))"

function GetRecordFilesFrom ::
  "('m, 'i) deps \<Rightarrow> world \<Rightarrow> string \<Rightarrow> string \<Rightarrow> time \<Rightarrow> time \<Rightarrow> string list \<Rightarrow>
   error + string list" where
  "GetRecordFilesFrom d wld dir pre hour endHour files =
     (if endHour < hour then Inr files
      else
        (let name = recordName d pre hour in
         if faulty wld Stat name then Inl (SysErr Stat name)
         else case map_of (entries wld) name of
                None \<Rightarrow> GetRecordFilesFrom d wld dir pre (hour + Hour) endHour files
              | Some nd \<Rightarrow>
                  if IsDir nd then Inl (IsNotAFile (recordPath dir name))
                  else GetRecordFilesFrom d wld dir pre (hour + Hour) endHour (files @ [name])))"
  by pat_completeness auto
termination
  by (relation "measure (\<lambda>(d, wld, dir, pre, hour, endHour, files). nat (endHour - hour + 1))")
     (auto simp: Hour_def Minute_def)

declare GetRecordFilesFrom.simps [simp del]

text \<open>
  \<^verbatim>\<open>GetRecordFiles\<close> returns the files of the hours from the hour of \<open>start\<close> to the
  hour of \<open>end\<close> that are there, each as the name of its entry.
\<close>

definition GetRecordFiles ::
  "('m, 'i) deps \<Rightarrow> world \<Rightarrow> string \<Rightarrow> string \<Rightarrow> time \<Rightarrow> time \<Rightarrow> error + string list" where
  "GetRecordFiles d wld dir pre start end' =
     GetRecordFilesFrom d wld dir pre (startOfHourUTC start) (startOfHourUTC end') []"

text \<open>
  The loop of \<^verbatim>\<open>IterateRecordFile\<close>. The visitor is a closure over the result of the
  caller: it takes the result so far and returns the new one, or an error.
\<close>

function iterateRecords ::
  "('m, 'i) deps \<Rightarrow> ('a \<Rightarrow> Observation \<Rightarrow> error + 'a) \<Rightarrow> istream \<Rightarrow> 'm \<Rightarrow> 'a \<Rightarrow> error + 'a" where
  "iterateRecords d visitor r idm acc =
     (case readRecord r of
        (Inl err, _) \<Rightarrow> Inl err
      | (Inr None, _) \<Rightarrow> Inr acc
      | (Inr (Some (marker, val)), r') \<Rightarrow>
          if marker = markerStringID then
            (case proto_Unmarshal d val of
               Inl err \<Rightarrow> Inl (ErrorOnReadingStringIDMap err)
             | Inr obj \<Rightarrow>
                 (case Append d idm obj of
                    Inl err \<Rightarrow> Inl (ErrorOnAppending err)
                  | Inr idm' \<Rightarrow> iterateRecords d visitor r' idm' acc))
          else if marker = markerObservation then
            (case IntObsFromBytes d val of
               Inl err \<Rightarrow> Inl (ErrorOnUnmarshalling err)
             | Inr intobs \<Rightarrow>
                 (case IntObsToObservation d intobs idm of
                    Inl err \<Rightarrow> Inl (ErrorOnConverting err)
                  | Inr obs \<Rightarrow>
                      (case visitor acc obs of
                         Inl err \<Rightarrow> Inl err
                       | Inr acc' \<Rightarrow> iterateRecords d visitor r' idm acc')))
          else if marker = markerOpen then iterateRecords d visitor r' idm acc
          else Inl InvalidFileFormat)"
  by pat_completeness auto
termination
  by (relation "measure (\<lambda>(d, visitor, r, idm, acc). length (pending r))")
     (auto simp: readRecord_def is_Read_def io_ReadFull_def Let_def
           split: if_splits prod.splits option.splits)

declare iterateRecords.simps [simp del]

definition IterateRecordFile ::
  "('m, 'i) deps \<Rightarrow> world \<Rightarrow> string \<Rightarrow> ('a \<Rightarrow> Observation \<Rightarrow> error + 'a) \<Rightarrow> 'a \<Rightarrow> error + 'a" where
  "IterateRecordFile d wld name visitor acc =
     (if faulty wld OpenRead name then Inl (SysErr OpenRead name)
      else case map_of (entries wld) name of
             None \<Rightarrow> Inl (ErrNotExist name)
           | Some nd \<Rightarrow> iterateRecords d visitor (open_read wld name nd) (NewStringIDMap d) acc)"

text \<open>
  The first lines of \<^verbatim>\<open>ListObservations\<close>: the window. \<open>None\<close> is the early
  \<^verbatim>\<open>return nil, nil\<close>; otherwise the result is the \<open>start\<close> and \<open>end\<close> that the rest
  of the function uses.
\<close>

definition queryWindow :: "time \<Rightarrow> ListObservationsOptions \<Rightarrow> (time \<times> time) option" where
  "queryWindow now options =
     (let empty = 0;
          startLimit = now + (- 24 * Hour);
          start = Start options;
          start = (if now < start then now else if start < startLimit then startLimit else start);
          end' = End options
      in if end' = empty then Some (start, now)
         else if start < end' \<or> end' < startLimit then None
         else Some (start, end'))"

text \<open>The visitor that \<^verbatim>\<open>ListObservations\<close> passes to \<^verbatim>\<open>IterateRecordFile\<close>.\<close>

definition visit ::
  "ListObservationsOptions \<Rightarrow> time \<Rightarrow> time \<Rightarrow> int \<Rightarrow> Observation list \<Rightarrow> Observation \<Rightarrow>
   error + Observation list" where
  "visit options start end' limit result obs =
     (let jobIDFilter = createFilter (FilterJobIDs options);
          srcHostFilter = createFilter (FilterSrcHosts options);
          descHostFilter = createFilter (FilterDestHosts options)
      in if int (length result) = limit then Inr result
         else if Timestamp obs < start \<or> end' < Timestamp obs then Inr result
         else if Ok obs \<and> FailuresOnly options then Inr result
         else if \<not> jobIDFilter (JobID obs) \<or> \<not> srcHostFilter (SrcHost obs)
                 \<or> \<not> descHostFilter (DestHost obs) then Inr result
         else Inr (result @ [obs]))"

text \<open>The loop of \<^verbatim>\<open>ListObservations\<close> over the files.\<close>

fun replayFiles ::
  "('m, 'i) deps \<Rightarrow> world \<Rightarrow> (Observation list \<Rightarrow> Observation \<Rightarrow> error + Observation list) \<Rightarrow>
   int \<Rightarrow> string list \<Rightarrow> Observation list \<Rightarrow> error + Observation list" where
  "replayFiles d wld visitor limit [] result = Inr result"
| "replayFiles d wld visitor limit (f # files) result =
     (if int (length result) = limit then Inr result
      else case IterateRecordFile d wld f visitor result of
             Inl err \<Rightarrow> Inl err
           | Inr result' \<Rightarrow> replayFiles d wld visitor limit files result')"

text \<open>\<^verbatim>\<open>ListObservations\<close> up to, and without, the final \<^verbatim>\<open>sort.Sort(result)\<close>.\<close>

definition collectObservations ::
  "('m, 'i) deps \<Rightarrow> 'm obsWriter \<Rightarrow> world \<Rightarrow> ListObservationsOptions \<Rightarrow>
   error + Observation list" where
  "collectObservations d w wld options =
     (case queryWindow (clock wld) options of
        None \<Rightarrow> Inr []
      | Some (start, end') \<Rightarrow>
          (let limit = (if Limit options = 0 then 10000 else Limit options)
           in case GetRecordFiles d wld (directory w) (prefix w) start end' of
                Inl err \<Rightarrow> Inl err
              | Inr files \<Rightarrow> replayFiles d wld (visit options start end' limit) limit files []))"

text \<open>
  Modelled from the spec: \<^verbatim>\<open>nwpd.Observations\<close> and its \<^verbatim>\<open>sort.Interface\<close> are
  not in \<^verbatim>\<open>writer2.go\<close>; the spec says that the result is sorted "by timestamp
  ascending", so \<^verbatim>\<open>sort.Sort(result)\<close> is \<open>sort_key Timestamp\<close>. (Go's sort is not
  stable; the order among equal timestamps is the model's choice.)
\<close>

definition ListObservations ::
  "('m, 'i) deps \<Rightarrow> 'm obsWriter \<Rightarrow> world \<Rightarrow> ListObservationsOptions \<Rightarrow>
   error + Observation list" where
  "ListObservations d w wld options =
     (case collectObservations d w wld options of
        Inl err \<Rightarrow> Inl err
      | Inr result \<Rightarrow> Inr (sort_key Timestamp result))"

section \<open>The terms of the properties\<close>

text \<open>The entry of the current hour, and the record that every opening writes.\<close>

definition currentName :: "('m, 'i) deps \<Rightarrow> 'm obsWriter \<Rightarrow> world \<Rightarrow> string" where
  "currentName d w wld = recordName d (prefix w) (startOfHourUTC (clock wld))"

definition openRecord :: "('m, 'i) deps \<Rightarrow> world \<Rightarrow> byte list" where
  "openRecord d wld =
     [markerOpen] @ put_uint16 (of_nat (length (FormatClock d (clock wld)))) @ FormatClock d (clock wld)"

text \<open>
  What the sweep does with an entry of the listing, in the terms of the claim: the entry
  is doomed when it is no directory, its name has the prefix of the writer, and its time of
  modification (which \<^verbatim>\<open>Info\<close> must give) is before the limit; \<open>report\<close> is the line
  of the log for a doomed entry; an entry is removable when \<^verbatim>\<open>os.Remove\<close> does not fail on it.
\<close>

definition doomed :: "'m obsWriter \<Rightarrow> world \<Rightarrow> time \<Rightarrow> string \<times> node \<Rightarrow> bool" where
  "doomed w wld limitUTC e =
     (case e of (name, nd) \<Rightarrow>
        \<not> IsDir nd \<and> HasPrefix name (prefix w) \<and> \<not> faulty wld FileInfo name \<and> mtime nd < limitUTC)"

definition report :: "'m obsWriter \<Rightarrow> world \<Rightarrow> string \<times> node \<Rightarrow> level \<times> logmsg" where
  "report w wld e =
     (case e of (name, nd) \<Rightarrow>
        if faulty wld Remove name
        then (Warn, CannotDeleteFile (recordPath (directory w) name) (SysErr Remove name))
        else (Info, DeletedFile (recordPath (directory w) name)))"

definition removable :: "world \<Rightarrow> string \<times> node \<Rightarrow> bool" where
  "removable wld e = (\<not> faulty wld Remove (fst e))"

text \<open>
  The conditions of the visitor, in the terms of the claims: a value passes a filter list
  that is absent (\<^verbatim>\<open>nil\<close>), and passes one that is present when it is among its keys.
\<close>

definition passes :: "string list option \<Rightarrow> string \<Rightarrow> bool" where
  "passes keys key = (case keys of None \<Rightarrow> True | Some ks \<Rightarrow> key \<in> set ks)"

definition accepts :: "ListObservationsOptions \<Rightarrow> time \<Rightarrow> time \<Rightarrow> Observation \<Rightarrow> bool" where
  "accepts options start end' obs =
     (start \<le> Timestamp obs \<and> Timestamp obs \<le> end'
      \<and> \<not> (Ok obs \<and> FailuresOnly options)
      \<and> passes (FilterJobIDs options) (JobID obs)
      \<and> passes (FilterSrcHosts options) (SrcHost obs)
      \<and> passes (FilterDestHosts options) (DestHost obs))"

definition admit ::
  "ListObservationsOptions \<Rightarrow> time \<Rightarrow> time \<Rightarrow> int \<Rightarrow> Observation list \<Rightarrow> Observation \<Rightarrow>
   Observation list" where
  "admit options start end' limit result obs =
     (if int (length result) \<noteq> limit \<and> accepts options start end' obs
      then result @ [obs] else result)"

text \<open>
  \<open>capped limit acc xs\<close> is \<open>acc\<close> with the elements of \<open>xs\<close> appended until the length is
  \<open>limit\<close>; a limit that the length of \<open>acc\<close> is beyond (any negative one) never stops it.
\<close>

definition capped :: "int \<Rightarrow> 'a list \<Rightarrow> 'a list \<Rightarrow> 'a list" where
  "capped limit acc xs =
     (if int (length acc) \<le> limit then acc @ take (nat (limit - int (length acc))) xs
      else acc @ xs)"

text \<open>
  \<^verbatim>\<open>IterateRecordFile\<close> with a visitor that does not fail is a fold of the visitor over
  the observations of the file; \<open>snoc\<close> is the visitor that keeps them all.
\<close>

definition snoc :: "Observation list \<Rightarrow> Observation \<Rightarrow> error + Observation list" where
  "snoc acc obs = Inr (acc @ [obs])"

text \<open>The observations of a file, in the order of its records.\<close>

definition fileObservations :: "('m, 'i) deps \<Rightarrow> world \<Rightarrow> string \<Rightarrow> error + Observation list" where
  "fileObservations d wld name = IterateRecordFile d wld name snoc []"

text \<open>The observations of a list of files, file after file: the order of the replay.\<close>

fun storedObservations :: "('m, 'i) deps \<Rightarrow> world \<Rightarrow> string list \<Rightarrow> error + Observation list" where
  "storedObservations d wld [] = Inr []"
| "storedObservations d wld (f # files) =
     (case fileObservations d wld f of
        Inl err \<Rightarrow> Inl err
      | Inr os \<Rightarrow>
          (case storedObservations d wld files of
             Inl err \<Rightarrow> Inl err
           | Inr rest \<Rightarrow> Inr (os @ rest)))"

text \<open>\<^verbatim>\<open>limit := options.Limit; if limit == 0 { limit = 10000 }\<close>.\<close>

definition effectiveLimit :: "ListObservationsOptions \<Rightarrow> int" where
  "effectiveLimit options = (if Limit options = 0 then 10000 else Limit options)"

text \<open>The requested start, clamped into the last 24 hours.\<close>

definition clampedStart :: "time \<Rightarrow> ListObservationsOptions \<Rightarrow> time" where
  "clampedStart now options = max (now - 24 * Hour) (min now (Start options))"

section \<open>A small instance of the parameters\<close>

text \<open>
  A dictionary that is the list of its entries, an observation of six bytes (hour, minute,
  success, and the keys of job, source and destination), and names of two digits for the
  hours. The theorems below hold for all parameters; this instance is where they are run.
\<close>

definition testDeps :: "((int \<times> string) list, byte list) deps" where
  "testDeps =
     \<lparr>proto_Unmarshal =
        (\<lambda>bs. case bs of
                [k, c] \<Rightarrow> Inr (uint k, if c = 0 then ''jobA'' else if c = 1 then ''jobB'' else ''host'')
              | _ \<Rightarrow> Inl (Foreign ''proto'')),
      NewStringIDMap = [],
      NewStringIDMapFromData = (\<lambda>objs. objs),
      Append = (\<lambda>m obj. Inr (m @ [obj])),
      IntObsFromBytes =
        (\<lambda>bs. if length bs = 6 then Inr bs else Inl (Foreign ''intobs'')),
      IntObsToObservation =
        (\<lambda>bs m. case (map_of m (uint (bs ! 3)), map_of m (uint (bs ! 4)), map_of m (uint (bs ! 5))) of
                  (Some j, Some s, Some t) \<Rightarrow>
                    Inr \<lparr>Timestamp = uint (bs ! 0) * Hour + uint (bs ! 1) * Minute,
                         Ok = (bs ! 2 \<noteq> 0), JobID = j, SrcHost = s, DestHost = t\<rparr>
                | _ \<Rightarrow> Inl (Foreign ''unknown key'')),
      FormatHour = (\<lambda>t. [''0123456789'' ! (nat (t div Hour) div 10 mod 10),
                          ''0123456789'' ! (nat (t div Hour) mod 10)]),
      FormatClock = (\<lambda>t. [0])\<rparr>"

definition testWorld :: world where
  "testWorld = \<lparr>clock = 30 * Minute, entries = [], faulty = (\<lambda>_ _. False), space = None,
                 handles = [], journal = [], running = True\<rparr>"

definition testWriter :: "(int \<times> string) list obsWriter" where
  "testWriter = \<lparr>directory = ''d'', prefix = ''p'', retentionHours = 1, currentFile = Empty,
                  ticker = True\<rparr>"

text \<open>The file that the writer of the small instance opens at minute 30 of hour 0.\<close>

definition openedAt30 :: "(int \<times> string) list writeFile" where
  "openedAt30 = \<lparr>filename = ''d/p-00.records'', endTime = 60 * Minute,
                  osFile = ''p-00.records'', idMap = []\<rparr>"

text \<open>
  The small instance, with a file of hour 0 that ends inside a dictionary record: the
  marker, a length of 5, and no payload.
\<close>

definition brokenWorld :: world where
  "brokenWorld = testWorld\<lparr>entries := [(''p-00.records'', File [1, 5, 0] 0)]\<rparr>"

text \<open>
  The small instance at half past hour 30, with an old and a new file of the writer, an old
  file of another prefix, and an old directory.
\<close>

definition agedWorld :: world where
  "agedWorld =
     testWorld\<lparr>clock := 30 * Hour + 30 * Minute,
               entries := [(''p-old'', File [] 0), (''p-new'', File [] (29 * Hour)),
                           (''q-old'', File [] 0), (''p-dir'', Dir 0)]\<rparr>"

text \<open>
  The small instance at half past hour 30, with a file of hour 30: the record of the
  opening, the dictionary entries 1 (\<open>jobA\<close>) and 2 (\<open>host\<close>), and two failed observations,
  the one of minute 20 stored before the one of minute 10.
\<close>

definition shelfFile :: "byte list" where
  "shelfFile = [127, 1, 0, 0] @ [1, 2, 0, 1, 0] @ [1, 2, 0, 2, 9]
                @ [2, 6, 0, 30, 20, 0, 1, 2, 2] @ [2, 6, 0, 30, 10, 0, 1, 2, 2]"

definition shelf :: world where
  "shelf = testWorld\<lparr>clock := 30 * Hour + 30 * Minute,
                     entries := [(''p-30.records'', File shelfFile (30 * Hour + 20 * Minute))]\<rparr>"

text \<open>The same, with a directory that has the name of the file of hour 29.\<close>

definition shelfWithDir :: world where
  "shelfWithDir = shelf\<lparr>entries := entries shelf @ [(''p-29.records'', Dir 0)]\<rparr>"

definition at20 :: Observation where
  "at20 = \<lparr>Timestamp = 30 * Hour + 20 * Minute, Ok = False, JobID = ''jobA'',
           SrcHost = ''host'', DestHost = ''host''\<rparr>"

definition at10 :: Observation where
  "at10 = \<lparr>Timestamp = 30 * Hour + 10 * Minute, Ok = False, JobID = ''jobA'',
           SrcHost = ''host'', DestHost = ''host''\<rparr>"

definition lastHalfHour :: ListObservationsOptions where
  "lastHalfHour = \<lparr>Start = 30 * Hour, End = 0, Limit = 5, FilterJobIDs = None,
                    FilterSrcHosts = None, FilterDestHosts = None, FailuresOnly = False\<rparr>"

lemmas world_ops = getFile_def loadCurrent_def rotate_def closeOld_def loadStringIDMap_def
  os_OpenAppend_def os_Remove_def os_Close_def file_writeRecord_def writeRecord_def os_Write_def
  logf_def recordName_def recordPath_def startOfHourUTC_def Hour_def Minute_def open_read_def

section \<open>The record codec: framing\<close>

lemma get_put_uint16: "get_uint16 (put_uint16 x) = x"
  unfolding get_uint16_def put_uint16_def
  by (rule bit_word_eqI) (auto simp: bit_simps)

lemma unat_length_field: "unat (get_uint16 (put_uint16 (of_nat n))) = n mod 65536"
  by (simp add: get_put_uint16 unat_of_nat)

lemma length_put_uint16: "length (put_uint16 x) = 2"
  by (simp add: put_uint16_def)

text \<open>On a stream with room for it, a record is written whole.\<close>

lemma writeRecord_fits:
  assumes "case room w of None \<Rightarrow> True | Some k \<Rightarrow> length val + 3 \<le> k"
  shows "writeRecord w marker val =
           (None, w\<lparr>written := written w @ [marker] @ put_uint16 (of_nat (length val)) @ val,
                    room := map_option (\<lambda>k. k - (length val + 3)) (room w)\<rparr>)"
proof (cases "room w")
  case None
  then show ?thesis
    by (simp add: writeRecord_def os_Write_def)
next
  case (Some k)
  with assms have "length val + 3 \<le> k" by simp
  with Some show ?thesis
    by (auto simp: writeRecord_def os_Write_def length_put_uint16)
qed

text \<open>
  Claim C3, as the code has it. \<^verbatim>\<open>writeRecord\<close> does not look at the length of the
  payload: on a stream that takes the bytes (no limit, or room for the payload and the
  three bytes of the header) it returns no error for every payload, and it has written
  exactly the marker byte, then the low 16 bits of the payload length as a 2-byte
  little-endian unsigned integer, then the payload bytes. The length field reads back as
  the payload length modulo 65536, which is the payload length itself for a payload of at
  most 65535 bytes.
\<close>

theorem C3_writeRecord_frames:
  assumes "case room w of None \<Rightarrow> True | Some k \<Rightarrow> length val + 3 \<le> k"
  shows "writeRecord w marker val =
           (None, w\<lparr>written := written w @ [marker] @ put_uint16 (of_nat (length val)) @ val,
                    room := map_option (\<lambda>k. k - (length val + 3)) (room w)\<rparr>)
         \<and> unat (get_uint16 (put_uint16 (of_nat (length val)))) = length val mod 65536
         \<and> (length val \<le> 65535 \<longrightarrow>
              unat (get_uint16 (put_uint16 (of_nat (length val)))) = length val)"
  using writeRecord_fits [OF assms] by (simp add: unat_length_field)

theorem C3_writeRecord_frames_witness:
  "writeRecord \<lparr>written = [9], room = Some 10\<rparr> markerObservation [7, 8] =
     (None, \<lparr>written = [9, 2, 2, 0, 7, 8], room = Some 5\<rparr>)"
  using C3_writeRecord_frames [where w = "\<lparr>written = [9], room = Some 10\<rparr>" and val = "[7, 8]"
          and marker = markerObservation]
  by (simp add: put_uint16_def markerObservation_def)

text \<open>
  Claim C3, as it is stated, fails: a payload of 65536 bytes is written with no error,
  under a length field of 0.
\<close>

theorem C3_long_payload_counterexample:
  "65535 < length (replicate 65536 (0 :: byte)) \<and>
   writeRecord \<lparr>written = [], room = None\<rparr> markerObservation (replicate 65536 0) =
     (None, \<lparr>written = [2, 0, 0] @ replicate 65536 0, room = None\<rparr>)"
  by (simp add: writeRecord_def os_Write_def put_uint16_def markerObservation_def)

section \<open>The record codec: the end of the stream\<close>

text \<open>
  Claim C5. \<^verbatim>\<open>readRecord\<close> returns the clean end of the stream (no record, no error)
  exactly when the stream is at its end, with no I/O error, before the marker byte. When
  the marker byte is there and the stream ends or fails before the two bytes of the length
  or before as many payload bytes as the length says, \<^verbatim>\<open>readRecord\<close> returns an error
  (which is not the clean end of the stream).
\<close>

theorem C5_readRecord_end_of_stream:
  "(fst (readRecord r) = Inr None) = (pending r = [] \<and> \<not> broken r)
   \<and> (pending r = m # rest \<and>
        (length rest < 2 \<or> length rest - 2 < unat (get_uint16 (take 2 rest)))
        \<longrightarrow> (\<exists>err. fst (readRecord r) = Inl err))"
  by (auto simp: readRecord_def is_Read_def io_ReadFull_def Let_def
           split: if_splits prod.splits option.splits)

theorem C5_readRecord_end_of_stream_witness:
  "fst (readRecord \<lparr>pending = [], broken = False\<rparr>) = Inr None
   \<and> (\<exists>err. fst (readRecord \<lparr>pending = [2, 5, 0, 1], broken = False\<rparr>) = Inl err)"
  using C5_readRecord_end_of_stream [where r = "\<lparr>pending = [2, 5, 0, 1], broken = False\<rparr>"
          and m = 2 and rest = "[5, 0, 1]"]
        C5_readRecord_end_of_stream [where r = "\<lparr>pending = [], broken = False\<rparr>"
          and m = 0 and rest = "[]"]
  by (simp add: get_uint16_def)

text \<open>A record that is read takes at least its marker from the stream.\<close>

lemma readRecord_consumes:
  "readRecord r = (Inr (Some x), r') \<Longrightarrow> length (pending r') < length (pending r)"
  by (auto simp: readRecord_def is_Read_def io_ReadFull_def Let_def
           split: if_splits prod.splits option.splits)

text \<open>A record that is all there is returned, and the stream stands behind it.\<close>

lemma readRecord_complete:
  "pending r = m # l0 # l1 # val @ further \<Longrightarrow> length val = unat (get_uint16 [l0, l1]) \<Longrightarrow>
   readRecord r = (Inr (Some (m, val)), r\<lparr>pending := further\<rparr>)"
  by (auto simp: readRecord_def is_Read_def io_ReadFull_def Let_def
           split: if_splits prod.splits option.splits)

section \<open>The hourly file manager: how long a file is written to\<close>

lemma startOfHourUTC_bounds: "t - Hour < startOfHourUTC t \<and> startOfHourUTC t \<le> t"
proof -
  have "0 \<le> t mod Hour" "t mod Hour < Hour"
    by (simp_all add: Hour_def Minute_def)
  then show ?thesis by (simp add: startOfHourUTC_def)
qed

lemma rotate_Inr:
  assumes "rotate d w wld old = (Inr f, w', wld')"
  shows "endTime f = startOfHourUTC (clock wld + 61 * Minute)"
    and "w' = w\<lparr>currentFile := Stored (Some f)\<rparr>"
    and "osFile f = recordName d (prefix w) (startOfHourUTC (clock wld))"
  using assms
  by (auto simp: rotate_def Let_def split: prod.splits option.splits sum.splits)

lemma getFile_valid:
  "currentFile w = Stored (Some f) \<Longrightarrow> clock wld \<le> endTime f \<Longrightarrow>
   getFile d w wld = (Inr f, w, wld)"
  by (simp add: getFile_def loadCurrent_def)

lemma getFile_expired:
  "currentFile w = Stored (Some f) \<Longrightarrow> endTime f < clock wld \<Longrightarrow>
   getFile d w wld = rotate d w wld (Some f)"
  by (simp add: getFile_def loadCurrent_def)

text \<open>\<open>getFile\<close> rotates when no file is current, or when the clock is past the end of the current file.\<close>

lemma getFile_rotates:
  assumes "case loadCurrent w of Some f0 \<Rightarrow> endTime f0 < clock wld | None \<Rightarrow> True"
  shows "getFile d w wld = rotate d w wld (loadCurrent w)"
  using assms by (auto simp: getFile_def split: option.splits)

text \<open>
  Claim C4, as the code has it. A file that \<open>getFile\<close> opens (in a rotation, at the time
  \<open>clock wld\<close>) is valid until the start of the UTC hour that holds the instant 61 minutes
  after its opening: more than 1 minute and at most 61 minutes after the opening. Every
  later call of \<open>getFile\<close> (a write or a flush) up to that end returns the file and
  changes nothing; the first call after it is the rotation, whose file, when it opens,
  ends later and is the current one from then on. Nothing but a call of \<open>getFile\<close> rotates.
\<close>

theorem C4_validity_of_the_write_file:
  assumes opened: "getFile d w wld = (Inr f, w', wld')"
    and rotation: "case loadCurrent w of Some f0 \<Rightarrow> endTime f0 < clock wld | None \<Rightarrow> True"
  shows "endTime f = startOfHourUTC (clock wld + 61 * Minute)
         \<and> clock wld + Minute < endTime f \<and> endTime f \<le> clock wld + 61 * Minute
         \<and> (clock later \<le> endTime f \<longrightarrow> getFile d w' later = (Inr f, w', later))
         \<and> (endTime f < clock later \<longrightarrow>
              getFile d w' later = rotate d w' later (Some f)
              \<and> (\<forall>g w2 wld2. getFile d w' later = (Inr g, w2, wld2) \<longrightarrow>
                    endTime f < endTime g \<and> currentFile w2 = Stored (Some g)))"
proof -
  from opened rotation have rot: "rotate d w wld (loadCurrent w) = (Inr f, w', wld')"
    by (simp add: getFile_rotates)
  have e: "endTime f = startOfHourUTC (clock wld + 61 * Minute)"
    and cur: "currentFile w' = Stored (Some f)"
    using rotate_Inr [OF rot] by simp_all
  have b: "clock wld + Minute < endTime f \<and> endTime f \<le> clock wld + 61 * Minute"
    using startOfHourUTC_bounds [of "clock wld + 61 * Minute"] e
    by (simp add: Hour_def)
  have v: "clock later \<le> endTime f \<longrightarrow> getFile d w' later = (Inr f, w', later)"
    using cur by (simp add: getFile_valid)
  have x: "endTime f < clock later \<longrightarrow>
              getFile d w' later = rotate d w' later (Some f)
              \<and> (\<forall>g w2 wld2. getFile d w' later = (Inr g, w2, wld2) \<longrightarrow>
                    endTime f < endTime g \<and> currentFile w2 = Stored (Some g))"
  proof (intro impI conjI allI)
    assume late: "endTime f < clock later"
    then show r: "getFile d w' later = rotate d w' later (Some f)"
      using cur by (simp add: getFile_expired)
    fix g w2 wld2
    assume "getFile d w' later = (Inr g, w2, wld2)"
    with r have rg: "rotate d w' later (Some f) = (Inr g, w2, wld2)" by simp
    have "endTime g = startOfHourUTC (clock later + 61 * Minute)"
      using rotate_Inr(1) [OF rg] .
    then have "clock later + Minute < endTime g"
      using startOfHourUTC_bounds [of "clock later + 61 * Minute"] by (simp add: Hour_def)
    with late show "endTime f < endTime g" by (simp add: Minute_def)
    show "currentFile w2 = Stored (Some g)"
      using rotate_Inr(2) [OF rg] by simp
  qed
  from e b v x show ?thesis by blast
qed

lemma getFile_testWorld:
  "getFile testDeps testWriter testWorld =
     (Inr openedAt30, testWriter\<lparr>currentFile := Stored (Some openedAt30)\<rparr>,
      testWorld\<lparr>entries := [(''p-00.records'', File [127, 1, 0, 0] (30 * Minute))],
                handles := [''p-00.records'']\<rparr>)"
  by (simp add: world_ops testDeps_def testWriter_def testWorld_def Let_def put_uint16_def
      markerOpen_def openedAt30_def)

theorem C4_validity_of_the_write_file_witness:
  "endTime openedAt30 = startOfHourUTC (clock testWorld + 61 * Minute)
   \<and> clock testWorld + Minute < endTime openedAt30
   \<and> getFile testDeps (testWriter\<lparr>currentFile := Stored (Some openedAt30)\<rparr>)
        (testWorld\<lparr>clock := 60 * Minute\<rparr>)
      = (Inr openedAt30, testWriter\<lparr>currentFile := Stored (Some openedAt30)\<rparr>,
         testWorld\<lparr>clock := 60 * Minute\<rparr>)
   \<and> getFile testDeps (testWriter\<lparr>currentFile := Stored (Some openedAt30)\<rparr>)
        (testWorld\<lparr>clock := 61 * Minute\<rparr>)
      = rotate testDeps (testWriter\<lparr>currentFile := Stored (Some openedAt30)\<rparr>)
         (testWorld\<lparr>clock := 61 * Minute\<rparr>) (Some openedAt30)"
  using C4_validity_of_the_write_file [OF getFile_testWorld, where later = "testWorld\<lparr>clock := 60 * Minute\<rparr>"]
    C4_validity_of_the_write_file [OF getFile_testWorld, where later = "testWorld\<lparr>clock := 61 * Minute\<rparr>"]
  by (simp add: testWriter_def testWorld_def openedAt30_def Minute_def loadCurrent_def)

text \<open>
  Claim C4, as it is stated, fails: the file opened at minute 30 is valid until minute 60
  only. The call of \<open>getFile\<close> at minute 61, which is 31 minutes after the opening and 30
  minutes before the 61 minutes are over, rotates to the file of hour 1.
\<close>

theorem C4_rotation_before_61_minutes_counterexample:
  "fst (getFile testDeps testWriter testWorld) = Inr openedAt30
   \<and> clock testWorld = 30 * Minute
   \<and> 61 * Minute < clock testWorld + 61 * Minute
   \<and> fst (getFile testDeps (testWriter\<lparr>currentFile := Stored (Some openedAt30)\<rparr>)
        (testWorld\<lparr>entries := [(''p-00.records'', File [127, 1, 0, 0] (30 * Minute))],
                   handles := [''p-00.records''], clock := 61 * Minute\<rparr>))
      = Inr \<lparr>filename = ''d/p-01.records'', endTime = 120 * Minute,
             osFile = ''p-01.records'', idMap = []\<rparr>"
  by (simp add: world_ops testDeps_def testWriter_def testWorld_def Let_def put_uint16_def
      markerOpen_def openedAt30_def)

section \<open>The hourly file manager: a file that does not parse\<close>

lemma closeOld_fields:
  "entries (closeOld wld old) = entries wld" "faulty (closeOld wld old) = faulty wld"
  "space (closeOld wld old) = space wld" "clock (closeOld wld old) = clock wld"
  by (auto simp: closeOld_def os_Close_def logf_def split: option.splits)

lemma open_read_closeOld: "open_read (closeOld wld old) name nd = open_read wld name nd"
  by (cases nd) (simp_all add: open_read_def closeOld_fields)

lemma loadStringIDMap_closeOld:
  "loadStringIDMap d (closeOld wld old) fname name = loadStringIDMap d wld fname name"
  by (simp add: loadStringIDMap_def closeOld_fields open_read_closeOld split: option.splits)

lemma rotate_corrupt:
  assumes "map_of (entries wld) (currentName d w wld) = Some (File c t)"
    and "loadStringIDMap d wld (recordPath (directory w) (currentName d w wld)) (currentName d w wld) = Inl err"
    and "\<not> faulty wld OpenAppend (currentName d w wld)"
    and "case space wld of None \<Rightarrow> True | Some k \<Rightarrow> length (FormatClock d (clock wld)) + 3 \<le> k"
  shows "\<exists>f w' wld'. rotate d w wld old = (Inr f, w', wld')
           \<and> idMap f = NewStringIDMap d
           \<and> take 2 (drop (length (journal (closeOld wld old))) (journal wld')) =
               [(Warn, LoadingStringIDMapFailed (recordPath (directory w) (currentName d w wld)) err),
                (Info, DeletingCorruptFile (recordPath (directory w) (currentName d w wld)))]
           \<and> (if faulty wld Remove (currentName d w wld)
               then map_of (entries wld') (currentName d w wld) = Some (File (c @ openRecord d wld) (clock wld))
               else map_of (entries wld') (currentName d w wld) = Some (File (openRecord d wld) (clock wld))
                    \<and> length (journal wld') = length (journal (closeOld wld old)) + 2)"
  using assms
  by (simp add: rotate_def Let_def loadStringIDMap_closeOld currentName_def [symmetric]
        os_Remove_def os_OpenAppend_def closeOld_fields file_writeRecord_def writeRecord_fits
        logf_def delete_conv' update_conv' map_add_def openRecord_def)

lemma rotate_absent:
  assumes "map_of (entries wld) (currentName d w wld) = None"
    and "\<not> faulty wld OpenRead (currentName d w wld)"
    and "\<not> faulty wld OpenAppend (currentName d w wld)"
    and "case space wld of None \<Rightarrow> True | Some k \<Rightarrow> length (FormatClock d (clock wld)) + 3 \<le> k"
  shows "loadStringIDMap d wld (recordPath (directory w) (currentName d w wld)) (currentName d w wld)
           = Inr (NewStringIDMap d)
         \<and> (\<exists>f w' wld'. rotate d w wld old = (Inr f, w', wld')
           \<and> idMap f = NewStringIDMap d
           \<and> journal wld' = journal (closeOld wld old)
           \<and> map_of (entries wld') (currentName d w wld) = Some (File (openRecord d wld) (clock wld)))"
  using assms
  by (simp add: rotate_def Let_def loadStringIDMap_closeOld currentName_def [symmetric]
        os_Remove_def os_OpenAppend_def closeOld_fields file_writeRecord_def writeRecord_fits
        logf_def delete_conv' update_conv' map_add_def openRecord_def loadStringIDMap_def)

text \<open>
  Claim C6. Let \<open>getFile\<close> rotate, in a world where the file of the current hour can be
  opened for appending and the device has room for the record of the opening; these are
  the two steps of \<open>getFile\<close> after the dictionary whose errors it does return.
  \<^item> When the entry of the current hour is a file and \<open>loadStringIDMap\<close> fails on it with
    \<open>err\<close>, \<open>getFile\<close> returns no error: it returns a file whose dictionary is
    \<open>NewStringIDMap\<close>, its first two lines in the log are the warning with \<open>err\<close> and the
    notice of the deletion, and, when \<^verbatim>\<open>os.Remove\<close> does not fail, these are all its
    lines and the entry holds the record of the opening and nothing of what it held.
    (When \<^verbatim>\<open>os.Remove\<close> fails, that is logged too, and the record is appended to what
    the entry held.)
  \<^item> When there is no entry of the current hour, \<open>loadStringIDMap\<close> returns
    \<open>NewStringIDMap\<close> and no error, and \<open>getFile\<close> returns a file with this dictionary and
    logs nothing.
\<close>

theorem C6_rotation_over_an_unreadable_file:
  assumes rotation: "case loadCurrent w of Some f0 \<Rightarrow> endTime f0 < clock wld | None \<Rightarrow> True"
    and can_open: "\<not> faulty wld OpenAppend (currentName d w wld)"
    and has_room: "case space wld of None \<Rightarrow> True
                   | Some k \<Rightarrow> length (FormatClock d (clock wld)) + 3 \<le> k"
  shows "(map_of (entries wld) (currentName d w wld) = Some (File c t)
          \<and> loadStringIDMap d wld (recordPath (directory w) (currentName d w wld))
               (currentName d w wld) = Inl err
          \<longrightarrow> (\<exists>f w' wld'. getFile d w wld = (Inr f, w', wld')
                 \<and> idMap f = NewStringIDMap d
                 \<and> take 2 (drop (length (journal (closeOld wld (loadCurrent w)))) (journal wld')) =
                     [(Warn, LoadingStringIDMapFailed
                               (recordPath (directory w) (currentName d w wld)) err),
                      (Info, DeletingCorruptFile (recordPath (directory w) (currentName d w wld)))]
                 \<and> (if faulty wld Remove (currentName d w wld)
                     then map_of (entries wld') (currentName d w wld)
                            = Some (File (c @ openRecord d wld) (clock wld))
                     else map_of (entries wld') (currentName d w wld)
                            = Some (File (openRecord d wld) (clock wld))
                          \<and> length (journal wld')
                            = length (journal (closeOld wld (loadCurrent w))) + 2)))
         \<and> (map_of (entries wld) (currentName d w wld) = None
            \<and> \<not> faulty wld OpenRead (currentName d w wld)
            \<longrightarrow> loadStringIDMap d wld (recordPath (directory w) (currentName d w wld))
                  (currentName d w wld) = Inr (NewStringIDMap d)
                \<and> (\<exists>f w' wld'. getFile d w wld = (Inr f, w', wld')
                     \<and> idMap f = NewStringIDMap d
                     \<and> journal wld' = journal (closeOld wld (loadCurrent w))
                     \<and> map_of (entries wld') (currentName d w wld)
                         = Some (File (openRecord d wld) (clock wld))))"
  using rotate_corrupt [OF _ _ can_open has_room, of c t err "loadCurrent w"]
        rotate_absent [OF _ _ can_open has_room, of "loadCurrent w"]
  by (simp only: getFile_rotates [OF rotation]) blast

lemma loadStringIDMap_brokenWorld:
  "loadStringIDMap testDeps brokenWorld ''d/p-00.records'' ''p-00.records''
     = Inl (ReadingStringIDMapFailed EOF)"
  by (simp add: loadStringIDMap_def brokenWorld_def testWorld_def open_read_def loadRecords.simps
      readRecord_def is_Read_def io_ReadFull_def get_uint16_def)

lemma brokenWorld_facts:
  "currentName testDeps testWriter brokenWorld = ''p-00.records''"
  "loadCurrent testWriter = None"
  "closeOld brokenWorld None = brokenWorld"
  "journal brokenWorld = []"
  "clock brokenWorld = 30 * Minute"
  "space brokenWorld = None"
  "faulty brokenWorld op n = False"
  "map_of (entries brokenWorld) ''p-00.records'' = Some (File [1, 5, 0] 0)"
  "openRecord testDeps brokenWorld = [127, 1, 0, 0]"
  "NewStringIDMap testDeps = []"
  "recordPath (directory testWriter) ''p-00.records'' = ''d/p-00.records''"
  by (simp_all add: currentName_def recordName_def startOfHourUTC_def brokenWorld_def
      testWorld_def testWriter_def testDeps_def Hour_def Minute_def loadCurrent_def closeOld_def
      openRecord_def put_uint16_def markerOpen_def recordPath_def)

lemma testWorld_facts:
  "currentName testDeps testWriter testWorld = ''p-00.records''"
  "closeOld testWorld None = testWorld"
  "journal testWorld = []"
  "clock testWorld = 30 * Minute"
  "space testWorld = None"
  "faulty testWorld op n = False"
  "map_of (entries testWorld) ''p-00.records'' = None"
  "openRecord testDeps testWorld = [127, 1, 0, 0]"
  by (simp_all add: currentName_def recordName_def startOfHourUTC_def
      testWorld_def testWriter_def testDeps_def Hour_def Minute_def closeOld_def
      openRecord_def put_uint16_def markerOpen_def)

theorem C6_rotation_over_an_unreadable_file_witness:
  "(\<exists>f w' wld'. getFile testDeps testWriter brokenWorld = (Inr f, w', wld')
      \<and> idMap f = []
      \<and> take 2 (journal wld') =
          [(Warn, LoadingStringIDMapFailed ''d/p-00.records'' (ReadingStringIDMapFailed EOF)),
           (Info, DeletingCorruptFile ''d/p-00.records'')]
      \<and> length (journal wld') = 2
      \<and> map_of (entries wld') ''p-00.records'' = Some (File [127, 1, 0, 0] (30 * Minute)))
   \<and> (\<exists>f w' wld'. getFile testDeps testWriter testWorld = (Inr f, w', wld')
      \<and> idMap f = [] \<and> journal wld' = []
      \<and> map_of (entries wld') ''p-00.records'' = Some (File [127, 1, 0, 0] (30 * Minute)))"
proof
  show "\<exists>f w' wld'. getFile testDeps testWriter brokenWorld = (Inr f, w', wld')
      \<and> idMap f = []
      \<and> take 2 (journal wld') =
          [(Warn, LoadingStringIDMapFailed ''d/p-00.records'' (ReadingStringIDMapFailed EOF)),
           (Info, DeletingCorruptFile ''d/p-00.records'')]
      \<and> length (journal wld') = 2
      \<and> map_of (entries wld') ''p-00.records'' = Some (File [127, 1, 0, 0] (30 * Minute))"
    using C6_rotation_over_an_unreadable_file [where d = testDeps and w = testWriter
        and wld = brokenWorld and c = "[1, 5, 0]" and t = 0 and err = "ReadingStringIDMapFailed EOF"]
      loadStringIDMap_brokenWorld
    by (auto simp: brokenWorld_facts)
  show "\<exists>f w' wld'. getFile testDeps testWriter testWorld = (Inr f, w', wld')
      \<and> idMap f = [] \<and> journal wld' = []
      \<and> map_of (entries wld') ''p-00.records'' = Some (File [127, 1, 0, 0] (30 * Minute))"
    using C6_rotation_over_an_unreadable_file [where d = testDeps and w = testWriter
        and wld = testWorld]
    by (auto simp: testWorld_facts brokenWorld_facts)
qed

section \<open>Stop before any file was opened\<close>

text \<open>
  Claim C10. Let a \<open>Run\<close> loop be running, so that the send of \<open>Stop\<close> on \<open>done\<close> is
  received and \<open>Stop\<close> reaches the type assertion. Then, on a writer whose current-file
  slot is empty, \<open>Stop\<close> panics in the type assertion. The slot of a writer is empty when
  \<open>NewObsWriter\<close> returns it, so \<open>Stop\<close> on a writer as constructed panics. When \<open>Stop\<close>
  returns, with or without closing a file, the slot was not empty: the check for
  \<^verbatim>\<open>nil\<close> is never what an empty slot runs into. With no \<open>Run\<close> loop running, \<open>Stop\<close>
  blocks in the send, the ticker stopped, and reaches no type assertion.
\<close>

theorem C10_Stop_panics_on_the_empty_slot:
  "(running wld \<and> currentFile w = Empty \<longrightarrow> Stop w wld = Panic)
   \<and> (running wld \<and> NewObsWriter wld0 dir pre hours = Inr w \<longrightarrow> Stop w wld = Panic)
   \<and> (Stop w wld = Returned x \<longrightarrow> running wld \<and> currentFile w \<noteq> Empty)
   \<and> (\<not> running wld \<longrightarrow>
        Stop w wld = Blocked (if ticker w then w\<lparr>ticker := False\<rparr> else w, wld))"
  by (auto simp: Stop_def NewObsWriter_def Let_def split: if_splits slot.splits option.splits)

theorem C10_Stop_panics_on_the_empty_slot_witness:
  "running testWorld
   \<and> NewObsWriter testWorld ''d'' ''p'' 1 = Inr testWriter \<and> Stop testWriter testWorld = Panic
   \<and> Stop (testWriter\<lparr>currentFile := Stored (Some openedAt30)\<rparr>) testWorld
       = Returned (testWriter\<lparr>currentFile := Stored (Some openedAt30), ticker := False\<rparr>,
                   testWorld\<lparr>running := False\<rparr>)
   \<and> currentFile (testWriter\<lparr>currentFile := Stored (Some openedAt30)\<rparr>) \<noteq> Empty
   \<and> Stop testWriter (testWorld\<lparr>running := False\<rparr>)
       = Blocked (testWriter\<lparr>ticker := False\<rparr>, testWorld\<lparr>running := False\<rparr>)"
  using C10_Stop_panics_on_the_empty_slot [where w = testWriter and wld = testWorld
      and ?wld0.0 = testWorld and dir = "''d''" and pre = "''p''" and hours = 1]
    C10_Stop_panics_on_the_empty_slot [where w = "testWriter\<lparr>currentFile := Stored (Some openedAt30)\<rparr>"
      and wld = testWorld
      and x = "(testWriter\<lparr>currentFile := Stored (Some openedAt30), ticker := False\<rparr>,
                testWorld\<lparr>running := False\<rparr>)"]
    C10_Stop_panics_on_the_empty_slot [where w = testWriter and wld = "testWorld\<lparr>running := False\<rparr>"]
  by (simp add: NewObsWriter_def testWriter_def testWorld_def Stop_def os_Close_def openedAt30_def)

section \<open>The retention sweep\<close>

lemma wrap64_id: "- (2 ^ 63) \<le> x \<Longrightarrow> x < 2 ^ 63 \<Longrightarrow> wrap64 x = x"
  by (simp add: wrap64_def)

lemma retentionLimit_in_range:
  assumes "retentionHours w \<le> 2562047"
  shows "retentionLimit w wld = startOfHourUTC (clock wld - max (retentionHours w) 1 * Hour)"
proof -
  let ?h = "if retentionHours w \<le> 0 then 1 else retentionHours w"
  have h: "?h = max (retentionHours w) 1" by simp
  have "1 \<le> ?h" "?h \<le> 2562047" using assms by simp_all
  then have "- (2 ^ 63) \<le> - ?h * Hour" "- ?h * Hour < 2 ^ 63"
    by (simp_all add: Hour_def Minute_def)
  then have "wrap64 (- ?h * Hour) = - ?h * Hour" by (rule wrap64_id)
  then show ?thesis
    unfolding retentionLimit_def Let_def h by simp
qed

lemma delete_as_filter: "AList.delete k al = filter (\<lambda>e. fst e \<noteq> k) al"
  by (induction al) auto

lemma sweep_general:
  assumes "distinct (map fst files)"
    and "\<forall>e \<in> set files. map_of (entries wld) (fst e) = Some (snd e)"
    and "faulty wld = faulty wld0"
  shows "entries (sweep w lim files wld) =
           filter (\<lambda>e. fst e \<notin> fst ` set (filter (removable wld0) (filter (doomed w wld0 lim) files)))
             (entries wld)
         \<and> journal (sweep w lim files wld) =
             journal wld @ map (report w wld0) (filter (doomed w wld0 lim) files)
         \<and> faulty (sweep w lim files wld) = faulty wld0"
  using assms
proof (induction files arbitrary: wld)
  case Nil
  then show ?case by simp
next
  case (Cons e files)
  obtain name nd where e: "e = (name, nd)" by (cases e)
  have here: "map_of (entries wld) name = Some nd"
    using Cons.prems(2) e by simp
  have d: "distinct (map fst files)" and fresh: "name \<notin> fst ` set files"
    using Cons.prems(1) e by auto
  have cond: "(\<not> IsDir nd \<and> HasPrefix name (prefix w) \<and> isBefore wld name lim) = doomed w wld0 lim e"
    using here Cons.prems(3) by (simp add: isBefore_def doomed_def e)
  show ?case
  proof (cases "doomed w wld0 lim e")
    case False
    with cond have "\<not> (\<not> IsDir nd \<and> HasPrefix name (prefix w) \<and> isBefore wld name lim)"
      by blast
    then have s: "sweep w lim (e # files) wld = sweep w lim files wld"
      by (simp only: e sweep.simps if_False)
    have "\<forall>e \<in> set files. map_of (entries wld) (fst e) = Some (snd e)"
      using Cons.prems(2) by simp
    from Cons.IH [OF d this Cons.prems(3)] False show ?thesis
      unfolding s by simp
  next
    case True
    with cond have "\<not> IsDir nd \<and> HasPrefix name (prefix w) \<and> isBefore wld name lim"
      by blast
    then have step: "sweep w lim (e # files) wld =
        (case os_Remove wld name of
           (Some err, wld') \<Rightarrow>
             sweep w lim files (logf Warn (CannotDeleteFile (recordPath (directory w) name) err) wld')
         | (None, wld') \<Rightarrow>
             sweep w lim files (logf Info (DeletedFile (recordPath (directory w) name)) wld'))"
      by (simp add: e Let_def)
    show ?thesis
    proof (cases "faulty wld0 Remove name")
      case bad: True
      let ?wld' = "logf Warn (CannotDeleteFile (recordPath (directory w) name) (SysErr Remove name)) wld"
      have s: "sweep w lim (e # files) wld = sweep w lim files ?wld'"
        using bad Cons.prems(3) by (simp add: step os_Remove_def)
      have p2: "\<forall>e \<in> set files. map_of (entries ?wld') (fst e) = Some (snd e)"
        using Cons.prems(2) by (simp add: logf_def)
      have p3: "faulty ?wld' = faulty wld0"
        using Cons.prems(3) by (simp add: logf_def)
      from Cons.IH [OF d p2 p3] True bad show ?thesis
        unfolding s by (simp add: e removable_def report_def logf_def)
    next
      case good: False
      let ?wld' = "logf Info (DeletedFile (recordPath (directory w) name))
                     (wld\<lparr>entries := AList.delete name (entries wld)\<rparr>)"
      have s: "sweep w lim (e # files) wld = sweep w lim files ?wld'"
        using good here Cons.prems(3) by (simp add: step os_Remove_def)
      have p2: "\<forall>e \<in> set files. map_of (entries ?wld') (fst e) = Some (snd e)"
        using Cons.prems(2) fresh by (auto simp: logf_def delete_conv')
      have p3: "faulty ?wld' = faulty wld0"
        using Cons.prems(3) by (simp add: logf_def)
      have del: "entries ?wld' = filter (\<lambda>e. fst e \<noteq> name) (entries wld)"
        by (simp add: logf_def delete_as_filter)
      note IH = Cons.IH [OF d p2 p3]
      have names: "fst ` set (filter (removable wld0) (filter (doomed w wld0 lim) (e # files)))
                   = insert name (fst ` set (filter (removable wld0) (filter (doomed w wld0 lim) files)))"
        using True good by (simp add: removable_def e)
      have ent: "entries (sweep w lim files ?wld') =
           filter (\<lambda>e'. fst e' \<notin> fst ` set (filter (removable wld0) (filter (doomed w wld0 lim) (e # files))))
             (entries wld)"
        unfolding names using IH by (simp add: del conj_commute)
      have jou: "journal (sweep w lim files ?wld') =
             journal wld @ map (report w wld0) (filter (doomed w wld0 lim) (e # files))"
        using IH True good by (simp add: report_def e logf_def)
      from ent jou IH show ?thesis
        unfolding s by blast
    qed
  qed
qed

lemma filter_by_names:
  assumes "distinct (map fst es)"
  shows "filter (\<lambda>e. fst e \<notin> fst ` set (filter P es)) es = filter (\<lambda>e. \<not> P e) es"
proof (rule filter_cong [OF refl])
  fix e assume e: "e \<in> set es"
  have "fst e \<in> fst ` set (filter P es) \<longleftrightarrow> P e"
  proof
    assume "fst e \<in> fst ` set (filter P es)"
    then obtain x where x: "x \<in> set es" "P x" "fst x = fst e" by auto
    from assms x(1) e x(3) have "x = e"
      by (metis eq_key_imp_eq_value prod.collapse)
    with x(2) show "P e" by simp
  next
    assume "P e"
    with e show "fst e \<in> fst ` set (filter P es)" by auto
  qed
  then show "(fst e \<notin> fst ` set (filter P es)) = (\<not> P e)" by simp
qed

text \<open>
  Claim C9, as the code has it. For retention hours up to 2562047, the largest number of
  hours whose nanoseconds fit a 64-bit \<^verbatim>\<open>time.Duration\<close>, the limit of the sweep is the
  start of the UTC hour of the clock minus \<open>max hours 1\<close> hours. When the directory can be
  listed (its entries have distinct names), the sweep calls \<^verbatim>\<open>os.Remove\<close> on exactly the
  doomed entries: the log gets one line for each of them, in the order of the listing,
  and the entries that are left are all but the doomed ones that could be removed. When
  the directory cannot be listed, that is logged and nothing is removed. In every case the
  sweep returns: \<open>cleanOldFiles\<close> has no error to return.
\<close>

theorem C9_retention_sweep:
  "(retentionHours w \<le> 2562047 \<longrightarrow>
      retentionLimit w wld = startOfHourUTC (clock wld - max (retentionHours w) 1 * Hour))
   \<and> (\<not> faulty wld ReadDir (directory w) \<and> distinct (map fst (entries wld)) \<longrightarrow>
        entries (cleanOldFiles w wld) =
          filter (\<lambda>e. \<not> (doomed w wld (retentionLimit w wld) e \<and> removable wld e)) (entries wld)
        \<and> journal (cleanOldFiles w wld) =
            journal wld @ map (report w wld) (filter (doomed w wld (retentionLimit w wld)) (entries wld)))
   \<and> (faulty wld ReadDir (directory w) \<longrightarrow>
        entries (cleanOldFiles w wld) = entries wld
        \<and> journal (cleanOldFiles w wld) =
            journal wld @ [(Warn, CannotReadDirectory (directory w) (SysErr ReadDir (directory w)))])"
proof (intro conjI impI)
  assume "retentionHours w \<le> 2562047"
  then show "retentionLimit w wld = startOfHourUTC (clock wld - max (retentionHours w) 1 * Hour)"
    by (rule retentionLimit_in_range)
next
  assume a: "\<not> faulty wld ReadDir (directory w) \<and> distinct (map fst (entries wld))"
  let ?lim = "retentionLimit w wld"
  have c: "cleanOldFiles w wld = sweep w ?lim (entries wld) wld"
    using a by (simp add: cleanOldFiles_def)
  have listed: "\<forall>e \<in> set (entries wld). map_of (entries wld) (fst e) = Some (snd e)"
    using a by simp
  note g = sweep_general [OF conjunct2 [OF a] listed refl, of w ?lim]
  have "filter (\<lambda>e. fst e \<notin> fst ` set (filter (removable wld) (filter (doomed w wld ?lim) (entries wld))))
          (entries wld)
        = filter (\<lambda>e. \<not> (doomed w wld ?lim e \<and> removable wld e)) (entries wld)"
    using filter_by_names [OF conjunct2 [OF a], of "\<lambda>e. doomed w wld ?lim e \<and> removable wld e"]
    by simp
  with g show "entries (cleanOldFiles w wld) =
          filter (\<lambda>e. \<not> (doomed w wld ?lim e \<and> removable wld e)) (entries wld)"
    by (simp add: c)
  from g show "journal (cleanOldFiles w wld) =
            journal wld @ map (report w wld) (filter (doomed w wld ?lim) (entries wld))"
    by (simp add: c)
next
  assume "faulty wld ReadDir (directory w)"
  then show "entries (cleanOldFiles w wld) = entries wld"
    and "journal (cleanOldFiles w wld) =
            journal wld @ [(Warn, CannotReadDirectory (directory w) (SysErr ReadDir (directory w)))]"
    by (simp_all add: cleanOldFiles_def logf_def)
qed

theorem C9_retention_sweep_witness:
  "retentionLimit (testWriter\<lparr>retentionHours := 0\<rparr>) agedWorld = 29 * Hour
   \<and> entries (cleanOldFiles (testWriter\<lparr>retentionHours := 0\<rparr>) agedWorld) =
       [(''p-new'', File [] (29 * Hour)), (''q-old'', File [] 0), (''p-dir'', Dir 0)]
   \<and> journal (cleanOldFiles (testWriter\<lparr>retentionHours := 0\<rparr>) agedWorld) =
       [(Info, DeletedFile ''d/p-old'')]
   \<and> entries (cleanOldFiles testWriter (agedWorld\<lparr>faulty := \<lambda>op n. op = ReadDir\<rparr>))
       = entries agedWorld
   \<and> journal (cleanOldFiles testWriter (agedWorld\<lparr>faulty := \<lambda>op n. op = ReadDir\<rparr>))
       = [(Warn, CannotReadDirectory ''d'' (SysErr ReadDir ''d''))]"
  using C9_retention_sweep [where w = "testWriter\<lparr>retentionHours := 0\<rparr>" and wld = agedWorld]
    C9_retention_sweep [where w = testWriter and wld = "agedWorld\<lparr>faulty := \<lambda>op n. op = ReadDir\<rparr>"]
  by (simp add: agedWorld_def testWorld_def testWriter_def doomed_def removable_def report_def
      HasPrefix_def recordPath_def startOfHourUTC_def Hour_def Minute_def)

text \<open>
  Claim C9, as it is stated, fails for a retention of 2562048 hours: the product
  \<^verbatim>\<open>-time.Duration(hours) * time.Hour\<close> wraps around to a positive duration, and the
  limit is not the start of the hour 2562048 hours ago but lies after the clock, so that
  the sweep removes the file written an hour and a half ago.
\<close>

theorem C9_retention_of_2562048_hours_counterexample:
  "retentionLimit (testWriter\<lparr>retentionHours := 2562048\<rparr>) agedWorld
     \<noteq> startOfHourUTC (clock agedWorld - max 2562048 1 * Hour)
   \<and> clock agedWorld < retentionLimit (testWriter\<lparr>retentionHours := 2562048\<rparr>) agedWorld
   \<and> entries (cleanOldFiles (testWriter\<lparr>retentionHours := 2562048\<rparr>) agedWorld) =
       [(''q-old'', File [] 0), (''p-dir'', Dir 0)]"
  by (simp add: cleanOldFiles_def isBefore_def os_Remove_def logf_def HasPrefix_def
      retentionLimit_def wrap64_def agedWorld_def testWorld_def testWriter_def
      startOfHourUTC_def Hour_def Minute_def)

section \<open>The query engine\<close>

lemma createFilter_passes: "createFilter keys key = passes keys key"
  by (simp add: createFilter_def passes_def all_def split: option.splits)

text \<open>
  Claim C7, as the code has it. Unless the result has reached the limit, the visitor of
  \<^verbatim>\<open>ListObservations\<close> appends an observation, and so accepts it, if and only if its
  timestamp lies within \<open>[start, end]\<close>, it is not a success when only failures are asked
  for, and its job ID, source host and destination host each pass the corresponding filter
  list: an absent (\<^verbatim>\<open>nil\<close>) list accepts every value, a list that is present accepts
  its members (and so an empty list that is present accepts no value).
\<close>

theorem C7_visit_accepts:
  "visit options start end' limit result obs =
     Inr (if int (length result) \<noteq> limit
             \<and> start \<le> Timestamp obs \<and> Timestamp obs \<le> end'
             \<and> \<not> (Ok obs \<and> FailuresOnly options)
             \<and> (case FilterJobIDs options of None \<Rightarrow> True | Some ks \<Rightarrow> JobID obs \<in> set ks)
             \<and> (case FilterSrcHosts options of None \<Rightarrow> True | Some ks \<Rightarrow> SrcHost obs \<in> set ks)
             \<and> (case FilterDestHosts options of None \<Rightarrow> True | Some ks \<Rightarrow> DestHost obs \<in> set ks)
          then result @ [obs] else result)"
  by (auto simp: visit_def Let_def createFilter_def all_def split: option.splits)

theorem C7_visit_accepts_witness:
  "visit lastHalfHour (30 * Hour) (31 * Hour) 5 [] at10 = Inr [at10]
   \<and> visit (lastHalfHour\<lparr>FilterJobIDs := Some [''jobB'', ''jobA'']\<rparr>) (30 * Hour) (31 * Hour) 5 [] at10
       = Inr [at10]
   \<and> visit (lastHalfHour\<lparr>FilterJobIDs := Some [''jobB'']\<rparr>) (30 * Hour) (31 * Hour) 5 [] at10
       = Inr []"
  using C7_visit_accepts [of lastHalfHour "30 * Hour" "31 * Hour" 5 "[]" at10]
    C7_visit_accepts [of "lastHalfHour\<lparr>FilterJobIDs := Some [''jobB'', ''jobA'']\<rparr>"
      "30 * Hour" "31 * Hour" 5 "[]" at10]
    C7_visit_accepts [of "lastHalfHour\<lparr>FilterJobIDs := Some [''jobB'']\<rparr>"
      "30 * Hour" "31 * Hour" 5 "[]" at10]
  by (simp add: lastHalfHour_def at10_def Hour_def Minute_def)

text \<open>
  Claim C7, as it is stated, fails: the observation that the visitor accepts without a
  filter on the job is not accepted with the empty list, present, as that filter.
\<close>

theorem C7_empty_filter_counterexample:
  "FilterJobIDs (lastHalfHour\<lparr>FilterJobIDs := Some []\<rparr>) = Some []
   \<and> visit lastHalfHour (30 * Hour) (31 * Hour) 5 [] at10 = Inr [at10]
   \<and> visit (lastHalfHour\<lparr>FilterJobIDs := Some []\<rparr>) (30 * Hour) (31 * Hour) 5 [] at10 = Inr []"
  by (simp add: visit_def createFilter_def all_def lastHalfHour_def at10_def Hour_def Minute_def)

text \<open>The visitor never fails: it is the function \<open>admit\<close> of the result and the observation.\<close>

lemma visit_admit:
  "visit options start end' limit result obs =
     Inr (if int (length result) \<noteq> limit \<and> accepts options start end' obs
          then result @ [obs] else result)"
  by (auto simp: visit_def Let_def createFilter_passes accepts_def)

lemma foldl_admit:
  "foldl (admit options start end' limit) acc os =
     capped limit acc (filter (accepts options start end') os)"
proof (induction os arbitrary: acc)
  case Nil
  then show ?case by (simp add: capped_def)
next
  case (Cons obs os)
  have step: "foldl (admit options start end' limit) acc (obs # os) =
      capped limit (admit options start end' limit acc obs) (filter (accepts options start end') os)"
    by (simp add: Cons.IH)
  have a: "admit options start end' limit acc obs =
      (if int (length acc) \<noteq> limit \<and> accepts options start end' obs then acc @ [obs] else acc)"
    by (simp add: admit_def)
  show ?case
  proof (cases "accepts options start end' obs")
    case False
    then show ?thesis unfolding step a by simp
  next
    case True
    consider "int (length acc) = limit" | "int (length acc) < limit" | "limit < int (length acc)"
      by linarith
    then show ?thesis
    proof cases
      case 1
      then show ?thesis unfolding step a using True by (simp add: capped_def)
    next
      case 2
      then have "nat (limit - int (length acc)) = Suc (nat (limit - int (length (acc @ [obs]))))"
        by simp
      then show ?thesis unfolding step a using True 2
        by (simp add: capped_def)
    next
      case 3
      then show ?thesis unfolding step a using True
        by (simp add: capped_def)
    qed
  qed
qed

lemma iterate_snoc:
  "iterateRecords d snoc r m acc =
     (case iterateRecords d snoc r m [] of Inl err \<Rightarrow> Inl err | Inr os \<Rightarrow> Inr (acc @ os))"
proof (induction "length (pending r)" arbitrary: r m acc rule: less_induct)
  case less
  obtain res r' where rr: "readRecord r = (res, r')" by (cases "readRecord r")
  show ?case
  proof (cases res)
    case (Inl e)
    with rr show ?thesis by (simp add: iterateRecords.simps [of _ _ r])
  next
    case (Inr rec)
    show ?thesis
    proof (cases rec)
      case None
      with rr Inr show ?thesis by (simp add: iterateRecords.simps [of _ _ r])
    next
      case (Some mv)
      obtain marker val where mv: "mv = (marker, val)" by (cases mv)
      have lt: "length (pending r') < length (pending r)"
        using rr Inr Some by (auto dest: readRecord_consumes)
      note IH = less [OF lt]
      have same: "\<And>m'. iterateRecords d snoc r' m' acc =
          (case iterateRecords d snoc r' m' [] of Inl err \<Rightarrow> Inl err | Inr os \<Rightarrow> Inr (acc @ os))"
        by (rule IH)
      have one: "\<And>obs. iterateRecords d snoc r' m (acc @ [obs]) =
          (case iterateRecords d snoc r' m [obs] of Inl err \<Rightarrow> Inl err | Inr os \<Rightarrow> Inr (acc @ os))"
      proof -
        fix obs
        show "iterateRecords d snoc r' m (acc @ [obs]) =
          (case iterateRecords d snoc r' m [obs] of Inl err \<Rightarrow> Inl err | Inr os \<Rightarrow> Inr (acc @ os))"
        proof -
          have 1: "iterateRecords d snoc r' m (acc @ [obs]) =
              (case iterateRecords d snoc r' m [] of Inl err \<Rightarrow> Inl err
               | Inr os \<Rightarrow> Inr ((acc @ [obs]) @ os))"
            by (rule IH)
          have 2: "iterateRecords d snoc r' m [obs] =
              (case iterateRecords d snoc r' m [] of Inl err \<Rightarrow> Inl err
               | Inr os \<Rightarrow> Inr ([obs] @ os))"
            by (rule IH)
          show ?thesis unfolding 1 2 by (simp split: sum.splits)
        qed
      qed
      show ?thesis
        using rr Inr Some mv
        by (simp add: iterateRecords.simps [of _ _ r] same one snoc_def [of acc] snoc_def [of "[]"]
            split: sum.splits)
    qed
  qed
qed

lemma iterate_fold:
  assumes V: "\<And>a obs. V a obs = Inr (f a obs)"
  shows "iterateRecords d V r m acc =
     (case iterateRecords d snoc r m [] of Inl err \<Rightarrow> Inl err | Inr os \<Rightarrow> Inr (foldl f acc os))"
proof (induction "length (pending r)" arbitrary: r m acc rule: less_induct)
  case less
  obtain res r' where rr: "readRecord r = (res, r')" by (cases "readRecord r")
  show ?case
  proof (cases res)
    case (Inl e)
    with rr show ?thesis by (simp add: iterateRecords.simps [of _ _ r])
  next
    case (Inr rec)
    show ?thesis
    proof (cases rec)
      case None
      with rr Inr show ?thesis by (simp add: iterateRecords.simps [of _ _ r])
    next
      case (Some mv)
      obtain marker val where mv: "mv = (marker, val)" by (cases mv)
      have lt: "length (pending r') < length (pending r)"
        using rr Inr Some by (auto dest: readRecord_consumes)
      note IH = less [OF lt]
      have same: "\<And>m'. iterateRecords d V r' m' acc =
          (case iterateRecords d snoc r' m' [] of Inl err \<Rightarrow> Inl err | Inr os \<Rightarrow> Inr (foldl f acc os))"
        by (rule IH)
      have one: "\<And>obs. iterateRecords d V r' m (f acc obs) =
          (case iterateRecords d snoc r' m [obs] of Inl err \<Rightarrow> Inl err
           | Inr os \<Rightarrow> Inr (foldl f acc os))"
      proof -
        fix obs
        have 1: "iterateRecords d V r' m (f acc obs) =
            (case iterateRecords d snoc r' m [] of Inl err \<Rightarrow> Inl err
             | Inr os \<Rightarrow> Inr (foldl f (f acc obs) os))"
          by (rule IH)
        have 2: "iterateRecords d snoc r' m [obs] =
            (case iterateRecords d snoc r' m [] of Inl err \<Rightarrow> Inl err
             | Inr os \<Rightarrow> Inr ([obs] @ os))"
          by (rule iterate_snoc)
        show "iterateRecords d V r' m (f acc obs) =
          (case iterateRecords d snoc r' m [obs] of Inl err \<Rightarrow> Inl err
           | Inr os \<Rightarrow> Inr (foldl f acc os))"
          unfolding 1 2 by (simp split: sum.splits)
      qed
      show ?thesis
        using rr Inr Some mv
        by (simp add: iterateRecords.simps [of _ _ r] same one V snoc_def [of "[]"]
            split: sum.splits)
    qed
  qed
qed

lemma IterateRecordFile_fold:
  assumes V: "\<And>a obs. V a obs = Inr (f a obs)"
  shows "IterateRecordFile d wld name V acc =
     (case fileObservations d wld name of Inl err \<Rightarrow> Inl err | Inr os \<Rightarrow> Inr (foldl f acc os))"
  by (simp add: IterateRecordFile_def fileObservations_def iterate_fold [of V f, OF V]
      split: option.splits)

lemma capped_full: "int (length acc) = limit \<Longrightarrow> capped limit acc xs = acc"
  by (simp add: capped_def)

lemma replayFiles_fold:
  assumes "storedObservations d wld files = Inr stored"
  shows "replayFiles d wld (visit options start end' limit) limit files acc =
           Inr (capped limit acc (filter (accepts options start end') stored))"
  using assms
proof (induction files arbitrary: acc stored)
  case Nil
  then show ?case by (simp add: capped_def)
next
  case (Cons f files)
  from Cons.prems obtain os rest where
    os: "fileObservations d wld f = Inr os" and rest: "storedObservations d wld files = Inr rest"
    and stored: "stored = os @ rest"
    by (auto split: sum.splits)
  have V: "\<And>a obs. visit options start end' limit a obs = Inr (admit options start end' limit a obs)"
    by (simp add: visit_admit admit_def)
  show ?case
  proof (cases "int (length acc) = limit")
    case True
    then show ?thesis by (simp add: capped_full)
  next
    case False
    have it: "IterateRecordFile d wld f (visit options start end' limit) acc =
        Inr (foldl (admit options start end' limit) acc os)"
      unfolding IterateRecordFile_fold [of "visit options start end' limit"
          "admit options start end' limit", OF V] os
      by simp
    have "foldl (admit options start end' limit) (foldl (admit options start end' limit) acc os) rest
          = foldl (admit options start end' limit) acc (os @ rest)"
      by simp
    then have "capped limit (foldl (admit options start end' limit) acc os)
                 (filter (accepts options start end') rest)
               = capped limit acc (filter (accepts options start end') stored)"
      unfolding stored by (simp only: foldl_admit)
    with False it Cons.IH [OF rest] show ?thesis
      by simp
  qed
qed

lemma collectObservations_stored:
  assumes "queryWindow (clock wld) options = Some (start, end')"
    and "GetRecordFiles d wld (directory w) (prefix w) start end' = Inr files"
    and "storedObservations d wld files = Inr stored"
  shows "collectObservations d w wld options =
           Inr (capped (effectiveLimit options) [] (filter (accepts options start end') stored))"
  using assms
  by (simp add: collectObservations_def Let_def replayFiles_fold effectiveLimit_def)

lemma sort_key_take_sorted:
  assumes "sorted (map f xs)"
  shows "sort_key f (take n xs) = take n (sort_key f xs)"
proof -
  have "sorted (map f (take n xs))"
    using assms by (simp add: take_map [symmetric] sorted_wrt_take)
  then show ?thesis using assms by (simp add: sort_key_id_if_sorted)
qed

lemma length_capped: "int (length acc) \<le> limit \<Longrightarrow> int (length (capped limit acc xs)) \<le> limit"
  by (auto simp: capped_def)

lemma replayFiles_length:
  assumes "replayFiles d wld (visit options start end' limit) limit files acc = Inr res"
    and "int (length acc) \<le> limit"
  shows "int (length res) \<le> limit"
  using assms
proof (induction files arbitrary: acc)
  case Nil
  then show ?case by simp
next
  case (Cons f files)
  have V: "\<And>a obs. visit options start end' limit a obs = Inr (admit options start end' limit a obs)"
    by (simp add: visit_admit admit_def)
  show ?case
  proof (cases "int (length acc) = limit")
    case True
    with Cons.prems show ?thesis by simp
  next
    case False
    with Cons.prems obtain acc' where
      it: "IterateRecordFile d wld f (visit options start end' limit) acc = Inr acc'"
      and rest: "replayFiles d wld (visit options start end' limit) limit files acc' = Inr res"
      by (auto split: sum.splits)
    from it obtain os where "acc' = foldl (admit options start end' limit) acc os"
      unfolding IterateRecordFile_fold [of "visit options start end' limit"
          "admit options start end' limit", OF V]
      by (auto split: sum.splits)
    then have "int (length acc') \<le> limit"
      using length_capped [OF Cons.prems(2)] by (simp add: foldl_admit)
    with Cons.IH [OF rest] show ?thesis by blast
  qed
qed

text \<open>Whatever a query returns is sorted, and within a limit that is positive.\<close>

lemma ListObservations_bounded:
  assumes "ListObservations d w wld options = Inr res"
  shows "sorted (map Timestamp res) \<and> (0 < Limit options \<longrightarrow> length res \<le> nat (Limit options))"
proof (cases "queryWindow (clock wld) options")
  case None
  with assms show ?thesis
    by (auto simp: ListObservations_def collectObservations_def)
next
  case (Some win)
  obtain start end' where win: "win = (start, end')" by (cases win)
  from assms Some win obtain files result where
    rp: "replayFiles d wld (visit options start end' (effectiveLimit options))
       (effectiveLimit options) files [] = Inr result"
    and res: "res = sort_key Timestamp result"
    by (auto simp: ListObservations_def collectObservations_def Let_def effectiveLimit_def
        split: sum.splits)
  have "0 < Limit options \<longrightarrow> length res \<le> nat (Limit options)"
  proof
    assume pos: "0 < Limit options"
    then have "int (length ([] :: Observation list)) \<le> effectiveLimit options"
      by (simp add: effectiveLimit_def)
    from replayFiles_length [OF rp this] pos show "length res \<le> nat (Limit options)"
      by (simp add: res effectiveLimit_def)
  qed
  then show ?thesis by (simp add: res)
qed

text \<open>
  Claim C2, as the code has it. Whatever a query returns is sorted ascending by timestamp
  and, for a limit \<open>n > 0\<close>, has at most \<open>n\<close> elements. Let the query pass the window
  check, and let all the files it selects replay without error; \<open>stored\<close> are their
  observations in the order of the replay (files in the order of their hours, records in
  the order of the file). Then the query returns, sorted by timestamp, the first \<open>n\<close> of
  the stored observations that satisfy the window and the filters, where \<open>n\<close> is the limit,
  with 10000 for a limit of 0 and no bound for a negative limit. When the accepted
  observations are stored in the order of their timestamps, these are the first \<open>n\<close> of
  them by timestamp.
\<close>

theorem C2_limit_and_order:
  "(ListObservations d w wld options = Inr res \<longrightarrow>
      sorted (map Timestamp res) \<and> (0 < Limit options \<longrightarrow> length res \<le> nat (Limit options)))
   \<and> (queryWindow (clock wld) options = Some (start, end')
       \<and> GetRecordFiles d wld (directory w) (prefix w) start end' = Inr files
       \<and> storedObservations d wld files = Inr stored \<longrightarrow>
       ListObservations d w wld options =
         Inr (sort_key Timestamp
               (if 0 \<le> effectiveLimit options
                then take (nat (effectiveLimit options)) (filter (accepts options start end') stored)
                else filter (accepts options start end') stored))
       \<and> (0 < Limit options \<and> sorted (map Timestamp (filter (accepts options start end') stored))
            \<longrightarrow> ListObservations d w wld options =
                  Inr (take (nat (Limit options))
                        (sort_key Timestamp (filter (accepts options start end') stored)))))"
proof (intro conjI impI)
  assume "ListObservations d w wld options = Inr res"
  from ListObservations_bounded [OF this]
  show "sorted (map Timestamp res)" and "0 < Limit options \<Longrightarrow> length res \<le> nat (Limit options)"
    by simp_all
next
  let ?acc = "filter (accepts options start end') stored"
  let ?n = "effectiveLimit options"
  assume a: "queryWindow (clock wld) options = Some (start, end')
       \<and> GetRecordFiles d wld (directory w) (prefix w) start end' = Inr files
       \<and> storedObservations d wld files = Inr stored"
  then have c: "collectObservations d w wld options = Inr (capped ?n [] ?acc)"
    by (simp add: collectObservations_stored)
  have "capped ?n [] ?acc = (if 0 \<le> ?n then take (nat ?n) ?acc else ?acc)"
    by (simp add: capped_def)
  with c show r: "ListObservations d w wld options =
      Inr (sort_key Timestamp (if 0 \<le> ?n then take (nat ?n) ?acc else ?acc))"
    by (simp add: ListObservations_def)
  assume "0 < Limit options \<and> sorted (map Timestamp ?acc)"
  then show "ListObservations d w wld options =
      Inr (take (nat (Limit options)) (sort_key Timestamp ?acc))"
    unfolding r by (simp add: effectiveLimit_def sort_key_take_sorted)
qed

lemmas stream_ops = readRecord_def is_Read_def io_ReadFull_def get_uint16_def
  markerStringID_def markerObservation_def markerOpen_def

lemma fileObservations_shelf:
  "fileObservations testDeps shelf ''p-30.records'' = Inr [at20, at10]"
  by (simp add: fileObservations_def IterateRecordFile_def shelf_def testWorld_def open_read_def
      shelfFile_def iterateRecords.simps stream_ops testDeps_def snoc_def at20_def at10_def)

lemma queryWindow_shelf:
  "queryWindow (clock shelf) (lastHalfHour\<lparr>Limit := n\<rparr>) = Some (30 * Hour, 30 * Hour + 30 * Minute)"
  by (simp add: queryWindow_def lastHalfHour_def shelf_def testWorld_def Let_def Hour_def Minute_def)

lemma GetRecordFiles_shelf:
  "GetRecordFiles testDeps shelf (directory testWriter) (prefix testWriter)
     (30 * Hour) (30 * Hour + 30 * Minute) = Inr [''p-30.records'']"
  by (simp add: GetRecordFiles_def GetRecordFilesFrom.simps startOfHourUTC_def recordName_def
      shelf_def testWorld_def testWriter_def testDeps_def Hour_def Minute_def)

lemma storedObservations_shelf:
  "storedObservations testDeps shelf [''p-30.records''] = Inr [at20, at10]"
  by (simp add: fileObservations_shelf)

lemma queryWindow_shelf_late:
  "queryWindow (clock shelf) (lastHalfHour\<lparr>Start := 30 * Hour + 15 * Minute, Limit := 1\<rparr>)
     = Some (30 * Hour + 15 * Minute, 30 * Hour + 30 * Minute)"
  by (simp add: queryWindow_def lastHalfHour_def shelf_def testWorld_def Let_def Hour_def Minute_def)

lemma GetRecordFiles_shelf_late:
  "GetRecordFiles testDeps shelf (directory testWriter) (prefix testWriter)
     (30 * Hour + 15 * Minute) (30 * Hour + 30 * Minute) = Inr [''p-30.records'']"
  by (simp add: GetRecordFiles_def GetRecordFilesFrom.simps startOfHourUTC_def recordName_def
      shelf_def testWorld_def testWriter_def testDeps_def Hour_def Minute_def)

theorem C2_limit_and_order_witness:
  "ListObservations testDeps testWriter shelf lastHalfHour = Inr [at10, at20]
   \<and> sorted (map Timestamp [at10, at20]) \<and> length [at10, at20] \<le> nat 5
   \<and> ListObservations testDeps testWriter shelf (lastHalfHour\<lparr>Limit := 1\<rparr>) = Inr [at20]
   \<and> ListObservations testDeps testWriter shelf
        (lastHalfHour\<lparr>Start := 30 * Hour + 15 * Minute, Limit := 1\<rparr>)
       = Inr (take 1 (sort_key Timestamp [at20]))"
proof -
  note shelf5 = conjI [OF queryWindow_shelf [of 5]
      conjI [OF GetRecordFiles_shelf storedObservations_shelf]]
  note shelf1 = conjI [OF queryWindow_shelf [of 1]
      conjI [OF GetRecordFiles_shelf storedObservations_shelf]]
  note late = conjI [OF queryWindow_shelf_late
      conjI [OF GetRecordFiles_shelf_late storedObservations_shelf]]
  have five: "ListObservations testDeps testWriter shelf lastHalfHour = Inr [at10, at20]"
    using C2_limit_and_order [THEN conjunct2, rule_format, OF shelf5]
    by (simp add: effectiveLimit_def accepts_def passes_def lastHalfHour_def at10_def at20_def
        Hour_def Minute_def)
  have bound: "sorted (map Timestamp [at10, at20]) \<and> length [at10, at20] \<le> nat 5"
    using C2_limit_and_order [THEN conjunct1, rule_format, OF five]
    by (simp add: lastHalfHour_def)
  have one: "ListObservations testDeps testWriter shelf (lastHalfHour\<lparr>Limit := 1\<rparr>) = Inr [at20]"
    using C2_limit_and_order [THEN conjunct2, rule_format, OF shelf1]
    by (simp add: effectiveLimit_def accepts_def passes_def lastHalfHour_def at10_def at20_def
        Hour_def Minute_def)
  have acc: "filter (accepts (lastHalfHour\<lparr>Start := 30 * Hour + 15 * Minute, Limit := 1\<rparr>)
        (30 * Hour + 15 * Minute) (30 * Hour + 30 * Minute)) [at20, at10] = [at20]"
    by (simp add: accepts_def passes_def lastHalfHour_def at10_def at20_def Hour_def Minute_def)
  have earliest: "ListObservations testDeps testWriter shelf
        (lastHalfHour\<lparr>Start := 30 * Hour + 15 * Minute, Limit := 1\<rparr>)
       = Inr (take 1 (sort_key Timestamp [at20]))"
    using C2_limit_and_order [THEN conjunct2, rule_format, OF late, THEN conjunct2, unfolded acc]
    by (simp add: lastHalfHour_def)
  from five bound one earliest show ?thesis by blast
qed

lemma ListObservations_shelf:
  "ListObservations testDeps testWriter shelf (lastHalfHour\<lparr>Limit := n\<rparr>) =
     Inr (sort_key Timestamp (capped (if n = 0 then 10000 else n) [] [at20, at10]))"
proof -
  have "filter (accepts (lastHalfHour\<lparr>Limit := n\<rparr>) (30 * Hour) (30 * Hour + 30 * Minute)) [at20, at10]
        = [at20, at10]"
    by (simp add: accepts_def passes_def lastHalfHour_def at10_def at20_def Hour_def Minute_def)
  then show ?thesis
    using collectObservations_stored [OF queryWindow_shelf GetRecordFiles_shelf storedObservations_shelf, of n]
    by (simp add: ListObservations_def effectiveLimit_def)
qed

text \<open>
  Claim C2, as it is stated, fails. Two stored observations satisfy the window and the
  filters (a limit of 2 returns both); with a limit of 1 the query returns the one of
  minute 20, which was stored first, and not the earliest, of minute 10. And with a limit
  of 0 the query returns two observations, more than 0.
\<close>

theorem C2_first_stored_not_earliest_counterexample:
  "ListObservations testDeps testWriter shelf (lastHalfHour\<lparr>Limit := 2\<rparr>) = Inr [at10, at20]
   \<and> ListObservations testDeps testWriter shelf (lastHalfHour\<lparr>Limit := 1\<rparr>) = Inr [at20]
   \<and> Timestamp at10 < Timestamp at20
   \<and> ListObservations testDeps testWriter shelf (lastHalfHour\<lparr>Limit := 0\<rparr>) = Inr [at10, at20]"
  by (simp add: ListObservations_shelf capped_def at10_def at20_def Hour_def Minute_def)

lemma queryWindow_start:
  "queryWindow now options = Some (start, end') \<Longrightarrow> start = clampedStart now options"
  by (auto simp: queryWindow_def clampedStart_def Let_def Hour_def Minute_def split: if_splits)

lemma queryWindow_clamped:
  "queryWindow now (options\<lparr>Start := clampedStart now options\<rparr>) = queryWindow now options"
  by (auto simp: queryWindow_def clampedStart_def Let_def Hour_def Minute_def)

lemma visit_Start: "visit (options\<lparr>Start := s\<rparr>) = visit options"
  by (intro ext) (simp add: visit_def)

lemma ListObservations_clamped:
  "ListObservations d w wld (options\<lparr>Start := clampedStart (clock wld) options\<rparr>)
     = ListObservations d w wld options"
proof -
  have "collectObservations d w wld (options\<lparr>Start := clampedStart (clock wld) options\<rparr>)
          = collectObservations d w wld options"
    by (cases "queryWindow (clock wld) options")
       (simp_all add: collectObservations_def queryWindow_clamped visit_Start Let_def
          split: prod.splits cong: sum.case_cong)
  then show ?thesis by (simp add: ListObservations_def)
qed

lemma set_capped: "set (capped limit acc xs) \<subseteq> set acc \<union> set xs"
  using set_take_subset [of "nat (limit - int (length acc))" xs]
  by (auto simp: capped_def)

lemma replayFiles_accepted:
  assumes "replayFiles d wld (visit options start end' limit) limit files acc = Inr res"
  shows "set res \<subseteq> set acc \<union> {obs. accepts options start end' obs}"
  using assms
proof (induction files arbitrary: acc)
  case Nil
  then show ?case by simp
next
  case (Cons f files)
  have V: "\<And>a obs. visit options start end' limit a obs = Inr (admit options start end' limit a obs)"
    by (simp add: visit_admit admit_def)
  show ?case
  proof (cases "int (length acc) = limit")
    case True
    with Cons.prems show ?thesis by simp
  next
    case False
    with Cons.prems obtain acc' where
      it: "IterateRecordFile d wld f (visit options start end' limit) acc = Inr acc'"
      and rest: "replayFiles d wld (visit options start end' limit) limit files acc' = Inr res"
      by (auto split: sum.splits)
    from it obtain os where "acc' = foldl (admit options start end' limit) acc os"
      unfolding IterateRecordFile_fold [of "visit options start end' limit"
          "admit options start end' limit", OF V]
      by (auto split: sum.splits)
    then have "set acc' \<subseteq> set acc \<union> {obs. accepts options start end' obs}"
      using set_capped [of limit acc "filter (accepts options start end') os"]
      by (auto simp: foldl_admit)
    with Cons.IH [OF rest] show ?thesis by blast
  qed
qed

lemma ListObservations_within:
  assumes "ListObservations d w wld options = Inr res" and "obs \<in> set res"
  shows "clampedStart (clock wld) options \<le> Timestamp obs"
proof (cases "queryWindow (clock wld) options")
  case None
  with assms show ?thesis
    by (simp add: ListObservations_def collectObservations_def)
next
  case (Some win)
  obtain start end' where win: "win = (start, end')" by (cases win)
  from assms(1) Some win obtain files result where
    "replayFiles d wld (visit options start end' (if Limit options = 0 then 10000 else Limit options))
       (if Limit options = 0 then 10000 else Limit options) files [] = Inr result"
    and res: "res = sort_key Timestamp result"
    by (auto simp: ListObservations_def collectObservations_def Let_def split: sum.splits)
  from replayFiles_accepted [OF this(1)] res assms(2) have "accepts options start end' obs"
    by auto
  then show ?thesis
    using queryWindow_start [of "clock wld" options start end'] Some win
    by (simp add: accepts_def)
qed

lemma GetRecordFilesFrom_names:
  "GetRecordFilesFrom d wld dir pre hour endHour files = Inr fs \<Longrightarrow> f \<in> set fs \<Longrightarrow>
   f \<in> set files \<or> (\<exists>h. f = recordName d pre h \<and> hour \<le> h \<and> h \<le> endHour)"
proof (induction d wld dir pre hour endHour files rule: GetRecordFilesFrom.induct)
  case (1 d wld dir pre hour endHour files)
  show ?case
  proof (cases "endHour < hour")
    case True
    with "1.prems" show ?thesis by (simp add: GetRecordFilesFrom.simps [of _ _ _ _ hour])
  next
    case False
    let ?name = "recordName d pre hour"
    from "1.prems"(1) False have nf: "\<not> faulty wld Stat ?name"
      by (auto simp: GetRecordFilesFrom.simps [of _ _ _ _ hour] Let_def split: if_splits)
    show ?thesis
    proof (cases "map_of (entries wld) ?name")
      case None
      with "1.prems"(1) False nf
      have "GetRecordFilesFrom d wld dir pre (hour + Hour) endHour files = Inr fs"
        by (simp add: GetRecordFilesFrom.simps [of _ _ _ _ hour] Let_def)
      from "1.IH"(1) [OF False refl nf None this "1.prems"(2)] show ?thesis
        by (auto simp: Hour_def Minute_def)
    next
      case (Some nd)
      with "1.prems"(1) False nf have nd: "\<not> IsDir nd"
        and r: "GetRecordFilesFrom d wld dir pre (hour + Hour) endHour (files @ [?name]) = Inr fs"
        by (auto simp: GetRecordFilesFrom.simps [of _ _ _ _ hour] Let_def split: if_splits)
      from "1.IH"(2) [OF False refl nf Some nd r "1.prems"(2)] False show ?thesis
        by (auto simp: Hour_def Minute_def)
    qed
  qed
qed

text \<open>
  Claim C8. The start that the window check hands on is the requested start clamped into
  \<open>[now - 24h, now]\<close>: a start after now becomes now, a start older than now - 24h
  becomes now - 24h. A query that passes the window check is the selection of the files
  by \<open>GetRecordFiles\<close> from the clamped start to the end, their replay under the visitor
  whose timestamp filter starts at the clamped start, and the sort. So the query depends
  on the requested start through the clamped start only; no observation it returns is
  older than it; and every file it selects is the file of an hour from the hour of the
  clamped start on.
\<close>

theorem C8_effective_start:
  "(queryWindow now options = Some (start, end') \<longrightarrow>
      start = max (now - 24 * Hour) (min now (Start options))
      \<and> now - 24 * Hour \<le> start \<and> start \<le> now
      \<and> (now < Start options \<longrightarrow> start = now)
      \<and> (Start options < now - 24 * Hour \<longrightarrow> start = now - 24 * Hour))
   \<and> (queryWindow (clock wld) options = Some (start, end') \<longrightarrow>
        ListObservations d w wld options =
          (case GetRecordFiles d wld (directory w) (prefix w)
                  (clampedStart (clock wld) options) end' of
             Inl err \<Rightarrow> Inl err
           | Inr files \<Rightarrow>
               (case replayFiles d wld
                       (visit options (clampedStart (clock wld) options) end'
                          (effectiveLimit options))
                       (effectiveLimit options) files [] of
                  Inl err \<Rightarrow> Inl err
                | Inr result \<Rightarrow> Inr (sort_key Timestamp result))))
   \<and> ListObservations d w wld (options\<lparr>Start := clampedStart (clock wld) options\<rparr>)
       = ListObservations d w wld options
   \<and> (ListObservations d w wld options = Inr res \<longrightarrow>
        (\<forall>obs \<in> set res. clampedStart (clock wld) options \<le> Timestamp obs))
   \<and> (queryWindow (clock wld) options = Some (start, end')
        \<and> GetRecordFiles d wld (directory w) (prefix w) start end' = Inr files \<longrightarrow>
        (\<forall>f \<in> set files. \<exists>h. f = recordName d (prefix w) h
            \<and> startOfHourUTC (clampedStart (clock wld) options) \<le> h \<and> h \<le> startOfHourUTC end'))"
proof (intro conjI impI ballI)
  assume q: "queryWindow now options = Some (start, end')"
  from queryWindow_start [OF q]
  show "start = max (now - 24 * Hour) (min now (Start options))"
    and "now - 24 * Hour \<le> start" and "start \<le> now"
    by (simp_all add: clampedStart_def Hour_def Minute_def)
  { assume "now < Start options"
    with queryWindow_start [OF q] show "start = now"
      by (simp add: clampedStart_def Hour_def Minute_def) }
  { assume "Start options < now - 24 * Hour"
    with queryWindow_start [OF q] show "start = now - 24 * Hour"
      by (simp add: clampedStart_def Hour_def Minute_def) }
next
  assume q: "queryWindow (clock wld) options = Some (start, end')"
  then have s: "start = clampedStart (clock wld) options"
    by (rule queryWindow_start)
  from q show "ListObservations d w wld options =
          (case GetRecordFiles d wld (directory w) (prefix w)
                  (clampedStart (clock wld) options) end' of
             Inl err \<Rightarrow> Inl err
           | Inr files \<Rightarrow>
               (case replayFiles d wld
                       (visit options (clampedStart (clock wld) options) end'
                          (effectiveLimit options))
                       (effectiveLimit options) files [] of
                  Inl err \<Rightarrow> Inl err
                | Inr result \<Rightarrow> Inr (sort_key Timestamp result)))"
    unfolding s [symmetric]
    by (simp add: ListObservations_def collectObservations_def Let_def effectiveLimit_def
        split: sum.splits)
next
  show "ListObservations d w wld (options\<lparr>Start := clampedStart (clock wld) options\<rparr>)
       = ListObservations d w wld options"
    by (rule ListObservations_clamped)
next
  fix obs assume "ListObservations d w wld options = Inr res" "obs \<in> set res"
  then show "clampedStart (clock wld) options \<le> Timestamp obs"
    by (rule ListObservations_within)
next
  fix f
  assume a: "queryWindow (clock wld) options = Some (start, end')
        \<and> GetRecordFiles d wld (directory w) (prefix w) start end' = Inr files"
    and f: "f \<in> set files"
  from a have s: "start = clampedStart (clock wld) options"
    by (simp add: queryWindow_start)
  from a f GetRecordFilesFrom_names [of d wld "directory w" "prefix w" "startOfHourUTC start"
      "startOfHourUTC end'" "[]" files f]
  show "\<exists>h. f = recordName d (prefix w) h
            \<and> startOfHourUTC (clampedStart (clock wld) options) \<le> h \<and> h \<le> startOfHourUTC end'"
    by (simp add: GetRecordFiles_def s)
qed

text \<open>
  In the small instance with the directory of hour 29: the query from 30:00 selects the
  file of hour 30 only, and the query from 29:30 selects from hour 29 on and fails on the
  directory.
\<close>

lemma shelfWithDir_from_30:
  "queryWindow (clock shelfWithDir) lastHalfHour = Some (30 * Hour, 30 * Hour + 30 * Minute)"
  "clampedStart (clock shelfWithDir) lastHalfHour = 30 * Hour"
  "GetRecordFiles testDeps shelfWithDir (directory testWriter) (prefix testWriter)
     (30 * Hour) (30 * Hour + 30 * Minute) = Inr [''p-30.records'']"
  "replayFiles testDeps shelfWithDir
     (visit lastHalfHour (30 * Hour) (30 * Hour + 30 * Minute) (effectiveLimit lastHalfHour))
     (effectiveLimit lastHalfHour) [''p-30.records''] [] = Inr [at20, at10]"
  by (simp_all add: queryWindow_def clampedStart_def lastHalfHour_def shelfWithDir_def shelf_def
      testWorld_def Let_def Hour_def Minute_def GetRecordFiles_def GetRecordFilesFrom.simps
      startOfHourUTC_def recordName_def testWriter_def testDeps_def effectiveLimit_def
      IterateRecordFile_def open_read_def shelfFile_def iterateRecords.simps stream_ops
      visit_def createFilter_def all_def at20_def at10_def)

lemma shelfWithDir_from_29:
  "queryWindow (clock shelfWithDir) (lastHalfHour\<lparr>Start := 29 * Hour + 30 * Minute\<rparr>)
     = Some (29 * Hour + 30 * Minute, 30 * Hour + 30 * Minute)"
  "clampedStart (clock shelfWithDir) (lastHalfHour\<lparr>Start := 29 * Hour + 30 * Minute\<rparr>)
     = 29 * Hour + 30 * Minute"
  "GetRecordFiles testDeps shelfWithDir (directory testWriter) (prefix testWriter)
     (29 * Hour + 30 * Minute) (30 * Hour + 30 * Minute) = Inl (IsNotAFile ''d/p-29.records'')"
  by (simp_all add: queryWindow_def clampedStart_def lastHalfHour_def shelfWithDir_def shelf_def
      testWorld_def Let_def Hour_def Minute_def GetRecordFiles_def GetRecordFilesFrom.simps
      startOfHourUTC_def recordName_def recordPath_def testWriter_def testDeps_def)

theorem C8_effective_start_witness:
  "queryWindow (clock shelf) (lastHalfHour\<lparr>Start := 99 * Hour\<rparr>) = Some (clock shelf, clock shelf)
   \<and> clock shelf = max (clock shelf - 24 * Hour) (min (clock shelf) (99 * Hour))
   \<and> queryWindow (100 * Hour) (lastHalfHour\<lparr>Start := 3 * Hour\<rparr>) = Some (76 * Hour, 100 * Hour)
   \<and> 76 * Hour = max (100 * Hour - 24 * Hour) (min (100 * Hour) (3 * Hour))
   \<and> ListObservations testDeps testWriter shelf lastHalfHour = Inr [at10, at20]
   \<and> clampedStart (clock shelf) lastHalfHour \<le> Timestamp at10
   \<and> (\<exists>h. ''p-30.records'' = recordName testDeps (prefix testWriter) h
          \<and> startOfHourUTC (clampedStart (clock shelf) lastHalfHour) \<le> h)
   \<and> ListObservations testDeps testWriter shelfWithDir lastHalfHour = Inr [at10, at20]
   \<and> ListObservations testDeps testWriter shelfWithDir
        (lastHalfHour\<lparr>Start := 29 * Hour + 30 * Minute\<rparr>) = Inl (IsNotAFile ''d/p-29.records'')"
proof -
  have future: "queryWindow (clock shelf) (lastHalfHour\<lparr>Start := 99 * Hour\<rparr>)
      = Some (clock shelf, clock shelf)"
    by (simp add: queryWindow_def lastHalfHour_def shelf_def testWorld_def Let_def Hour_def Minute_def)
  have past: "queryWindow (100 * Hour) (lastHalfHour\<lparr>Start := 3 * Hour\<rparr>)
      = Some (76 * Hour, 100 * Hour)"
    by (simp add: queryWindow_def lastHalfHour_def Let_def Hour_def Minute_def)
  have now: "clock shelf = max (clock shelf - 24 * Hour) (min (clock shelf) (99 * Hour))"
    using C8_effective_start [THEN conjunct1, rule_format, OF future]
    by (simp add: lastHalfHour_def)
  have floor: "76 * Hour = max (100 * Hour - 24 * Hour) (min (100 * Hour) (3 * Hour))"
    using C8_effective_start [THEN conjunct1, rule_format, OF past]
    by (simp add: lastHalfHour_def)
  have both: "ListObservations testDeps testWriter shelf lastHalfHour = Inr [at10, at20]"
    using ListObservations_shelf [of 5]
    by (simp add: lastHalfHour_def capped_def at10_def at20_def Hour_def Minute_def)
  have within: "clampedStart (clock shelf) lastHalfHour \<le> Timestamp at10"
    using C8_effective_start [THEN conjunct2, THEN conjunct2, THEN conjunct2, THEN conjunct1,
        rule_format, OF both, of at10]
    by simp
  have window: "queryWindow (clock shelf) lastHalfHour = Some (30 * Hour, 30 * Hour + 30 * Minute)"
    using queryWindow_shelf [of 5] by (simp add: lastHalfHour_def)
  have selected: "\<exists>h. ''p-30.records'' = recordName testDeps (prefix testWriter) h
          \<and> startOfHourUTC (clampedStart (clock shelf) lastHalfHour) \<le> h"
    using C8_effective_start [THEN conjunct2, THEN conjunct2, THEN conjunct2, THEN conjunct2,
        rule_format, OF conjI [OF window GetRecordFiles_shelf], of "''p-30.records''"]
    by auto
  have from30: "ListObservations testDeps testWriter shelfWithDir lastHalfHour = Inr [at10, at20]"
  proof -
    have "ListObservations testDeps testWriter shelfWithDir lastHalfHour
          = Inr (sort_key Timestamp [at20, at10])"
      using C8_effective_start [THEN conjunct2, THEN conjunct1, rule_format,
          OF shelfWithDir_from_30(1), of testDeps testWriter]
      by (simp only: shelfWithDir_from_30 sum.case)
    then show ?thesis
      by (simp add: at10_def at20_def Hour_def Minute_def)
  qed
  have from29: "ListObservations testDeps testWriter shelfWithDir
        (lastHalfHour\<lparr>Start := 29 * Hour + 30 * Minute\<rparr>) = Inl (IsNotAFile ''d/p-29.records'')"
    using C8_effective_start [THEN conjunct2, THEN conjunct1, rule_format,
        OF shelfWithDir_from_29(1), of testDeps testWriter]
    by (simp only: shelfWithDir_from_29 sum.case)
  from future now past floor both within selected from30 from29 show ?thesis by blast
qed

section \<open>The query engine: the window check\<close>

text \<open>A given end after the clamped start is answered with the empty result, whatever is stored.\<close>

lemma ListObservations_end_after_start:
  assumes "End options \<noteq> 0" and "clampedStart (clock wld) options < End options"
  shows "ListObservations d w wld options = Inr []"
proof -
  have "queryWindow (clock wld) options = None"
    using assms
    by (auto simp: queryWindow_def clampedStart_def Let_def Hour_def Minute_def)
  then show ?thesis
    by (simp add: ListObservations_def collectObservations_def)
qed

text \<open>
  Claim C1 and the code. The window check of the source returns the empty result for a
  given end \<^emph>\<open>after\<close> the clamped start. At half past hour 30, the query from 30:00 to
  30:25 (an end after the start, and within the last 24 hours) is stopped by the window
  check and returns nothing, though the two stored observations, of 30:10 and 30:20, lie
  in the window: the same query with no end given returns both. And a given end before
  the clamped start (from 30:20 to 30:10) passes the check, and goes on to the files.
\<close>

theorem C1_given_end_after_start_returns_nothing:
  "clock shelf - 24 * Hour \<le> 30 * Hour + 25 * Minute
   \<and> 30 * Hour < 30 * Hour + 25 * Minute
   \<and> 30 * Hour + 25 * Minute \<le> clock shelf
   \<and> queryWindow (clock shelf) (lastHalfHour\<lparr>End := 30 * Hour + 25 * Minute\<rparr>) = None
   \<and> ListObservations testDeps testWriter shelf (lastHalfHour\<lparr>End := 30 * Hour + 25 * Minute\<rparr>) = Inr []
   \<and> ListObservations testDeps testWriter shelf lastHalfHour = Inr [at10, at20]
   \<and> 30 * Hour \<le> Timestamp at10 \<and> Timestamp at20 \<le> 30 * Hour + 25 * Minute
   \<and> queryWindow (clock shelf) (lastHalfHour\<lparr>Start := 30 * Hour + 20 * Minute,
                                               End := 30 * Hour + 10 * Minute\<rparr>)
       = Some (30 * Hour + 20 * Minute, 30 * Hour + 10 * Minute)"
  using ListObservations_shelf [of 5]
  by (simp add: queryWindow_def ListObservations_def collectObservations_def lastHalfHour_def
      shelf_def testWorld_def capped_def at10_def at20_def Let_def Hour_def Minute_def)

end
